theory Spec2Isabelle
  imports Main
begin

section \<open>JavaScript values used by the mail services\<close>

text \<open>
  Strings are lists of code units (code units below 256 are covered by \<open>char\<close>).
  An optional property (\<open>x?: T\<close>, \<open>T | undefined\<close>, \<open>T | null\<close>) is an \<open>option\<close>.
  A thrown value or a rejected promise is the left summand of a sum; every rejection
  of the source is built with \<open>new Error(message)\<close>, collaborators may throw anything.
\<close>

datatype thrown = Error string | NonError

text \<open>\<open>error instanceof Error ? error.message : 'Unknown error'\<close>\<close>

fun errmsg :: "thrown \<Rightarrow> string" where
  "errmsg (Error m) = m"
| "errmsg NonError = ''Unknown error''"

text \<open>Truthiness of a string-valued optional property: \<open>undefined\<close> and \<open>''\<close> are falsy.\<close>

fun truthy :: "string option \<Rightarrow> bool" where
  "truthy None = False"
| "truthy (Some s) = (s \<noteq> [])"

text \<open>\<open>x || d\<close> for an optional string \<open>x\<close> and a string \<open>d\<close>.\<close>

definition or_else :: "string option \<Rightarrow> string \<Rightarrow> string" where
  "or_else x d = (case x of None \<Rightarrow> d | Some s \<Rightarrow> if s = [] then d else s)"

text \<open>\<open>String.prototype.startsWith\<close>, \<open>includes\<close> for a one-character needle, \<open>includes\<close>.\<close>

definition startsWith :: "string \<Rightarrow> string \<Rightarrow> bool" where
  "startsWith s p = (take (length p) s = p)"

definition includesChar :: "string \<Rightarrow> char \<Rightarrow> bool" where
  "includesChar s c = (c \<in> set s)"

fun includes_str :: "string \<Rightarrow> string \<Rightarrow> bool" where
  "includes_str [] p = (p = [])"
| "includes_str (c # cs) p = (startsWith (c # cs) p \<or> includes_str cs p)"

text \<open>\<open>s.split(c)\<close> for a one-character separator, and \<open>xs.join(sep)\<close>.\<close>

fun split :: "char \<Rightarrow> string \<Rightarrow> string list" where
  "split sep [] = [[]]"
| "split sep (c # cs) =
     (if c = sep then [] # split sep cs
      else (case split sep cs of [] \<Rightarrow> [[c]] | w # ws \<Rightarrow> (c # w) # ws))"

fun join :: "string \<Rightarrow> string list \<Rightarrow> string" where
  "join sep [] = []"
| "join sep [x] = x"
| "join sep (x # y # ys) = x @ sep @ join sep (y # ys)"

text \<open>
  The regular-expression class \<open>\s\<close> and the characters removed by \<open>trim\<close>, for code
  units below 256: tab, line feed, vertical tab, form feed, carriage return, space and
  the no-break space. A digit is read off the string of the ten digits, at an index
  below ten.
\<close>

definition isSpace :: "char \<Rightarrow> bool" where
  "isSpace c = (c \<in> {CHR 0x09, CHR 0x0A, CHR 0x0B, CHR 0x0C, CHR 0x0D, CHR 0x20, CHR 0xA0})"

definition trim :: "string \<Rightarrow> string" where
  "trim s = rev (dropWhile isSpace (rev (dropWhile isSpace s)))"

text \<open>\<open>Number.prototype.toString()\<close> of a non-negative integer.\<close>

definition digit :: "nat \<Rightarrow> char" where
  "digit d = ''0123456789'' ! d"

fun toString :: "nat \<Rightarrow> string" where
  "toString n = (if n < 10 then [digit n] else toString (n div 10) @ [digit (n mod 10)])"

declare toString.simps [simp del]

text \<open>
  A \<open>Set\<close> keeps its elements in insertion order and ignores a value it already
  holds; \<open>Array.from(set)\<close> and \<open>[...set]\<close> read them in that order. A set is the list
  of its elements in insertion order.
\<close>

definition set_add :: "'a list \<Rightarrow> 'a \<Rightarrow> 'a list" where
  "set_add s x = (if x \<in> set s then s else s @ [x])"

definition new_Set :: "'a list \<Rightarrow> 'a list" where
  "new_Set xs = foldl set_add [] xs"

text \<open>
  \<open>Array.prototype.sort(cmp)\<close> is a stable comparison sort: an element moves in front
  of another only if \<open>cmp\<close> puts it strictly before. Insertion from the right, each
  element placed in front of the first one it does not follow, is such a sort; the
  comparators of the source subtract the times of two valid dates.
\<close>

fun insert_by :: "('a \<Rightarrow> 'a \<Rightarrow> int) \<Rightarrow> 'a \<Rightarrow> 'a list \<Rightarrow> 'a list" where
  "insert_by cmp x [] = [x]"
| "insert_by cmp x (y # ys) =
     (if cmp x y \<le> 0 then x # y # ys else y # insert_by cmp x ys)"

definition js_sort :: "('a \<Rightarrow> 'a \<Rightarrow> int) \<Rightarrow> 'a list \<Rightarrow> 'a list" where
  "js_sort cmp xs = foldr (insert_by cmp) xs []"


section \<open>The data model (types.ts)\<close>

text \<open>
  Field names carry a prefix naming their record. The \<open>date\<close> of a message holds
  \<open>Date.prototype.toISOString()\<close> of a valid date; the ISO rendering and
  \<open>new Date(s).getTime()\<close> are inverse to each other on valid dates, so the field is
  its number of milliseconds since the epoch.
\<close>

record AttachmentInfo =
  ai_index :: nat
  ai_filename :: string
  ai_contentType :: string
  ai_size :: nat

record AttachmentContent =
  ac_filename :: string
  ac_contentType :: string
  ac_size :: nat
  ac_content :: string

record EmailMessage =
  em_id :: string
  em_threadId :: string
  em_subject :: string
  em_from :: string
  em_to :: "string list"
  em_cc :: "string list option"
  em_date :: int
  em_snippet :: string
  em_body :: "string option"
  em_bodyHtml :: "string option"
  em_labels :: "string list"
  em_isRead :: "bool option"
  em_hasAttachments :: "bool option"
  em_attachments :: "AttachmentInfo list option"
  em_inReplyTo :: "string option"
  em_references :: "string list option"
  em_messageId :: "string option"

record SendResult =
  sr_messageId :: string
  sr_success :: bool
  sr_message :: string

record ThreadResult =
  tr_messages :: "EmailMessage list"
  tr_threadId :: string
  tr_messageCount :: nat


section \<open>The collaborators: MIME decoder and mailbox\<close>

text \<open>
  What \<open>simpleParser\<close> delivers (\<open>ParsedMail\<close>) and what the IMAP library reports
  with a message (\<open>attrs\<close>). An address header and \<open>references\<close> come as one value or
  as an array. \<open>att_content\<close> is \<open>content.toString('base64')\<close>. \<open>a_struct\<close> is
  \<open>JSON.stringify(attrs.struct)\<close>, absent when \<open>attrs.struct\<close> is falsy.
\<close>

datatype 'a one_or_many = One 'a | Many "'a list"

record Attachment =
  att_filename :: "string option"
  att_contentType :: "string option"
  att_size :: nat
  att_content :: string

record ParsedMail =
  pm_subject :: "string option"
  pm_from :: "string option"
  pm_to :: "string one_or_many option"
  pm_cc :: "string one_or_many option"
  pm_date :: "int option"
  pm_text :: "string option"
  pm_html :: "string option"
  pm_messageId :: "string option"
  pm_inReplyTo :: "string option"
  pm_references :: "string one_or_many option"
  pm_attachments :: "Attachment list"

record Attrs =
  a_uid :: nat
  a_flags :: "string list option"
  a_date :: "int option"
  a_struct :: "string option"

text \<open>
  One mailbox session of \<open>getMessage\<close> or \<open>getAttachment\<close>: the connection fails, the
  inbox does not open, the fetch fails, the fetch ends without a message, or it
  delivers the message (its attributes, if the attributes event fired, and the
  outcome of the MIME decoder on its bytes).
\<close>

datatype fetch_reply =
    ConnectionError string
  | OpenBoxError string
  | FetchError string
  | FetchEmpty
  | FetchMessage "Attrs option" "thrown + ParsedMail"

text \<open>
  The second session of \<open>getThread\<close>: the connection reports an error before
  anything else has settled the result, the inbox does not open, or the inbox is
  open and answers searches and the batch fetch. A search answers with an error, with
  no result value, or with message numbers. The batch fetch fails, or ends. The
  handler of a message pushes it to the array \<open>messages\<close> when the decoder has
  answered, which can be before or after the end of the fetch: \<open>ThreadFetchEnd\<close>
  gives the messages handled before the fetch ended, and those handled after it and
  before the caller reads the result, each list in the order in which the handlers
  finished.
\<close>

datatype header_field = MESSAGE_ID | REFERENCES

datatype search_reply = SearchErr | SearchNull | SearchHits "nat list"

datatype thread_fetch =
    ThreadFetchError
  | ThreadFetchEnd "(Attrs option \<times> (thrown + ParsedMail)) list"
                   "(Attrs option \<times> (thrown + ParsedMail)) list"

datatype thread_session =
    SessionError
  | SessionOpenBoxError
  | SessionOpen "header_field \<Rightarrow> string \<Rightarrow> search_reply" "nat list \<Rightarrow> thread_fetch"


section \<open>ImapService (imap-service.ts)\<close>

text \<open>\<open>Array.isArray(x) ? x : [x]\<close>\<close>

fun as_list :: "'a one_or_many \<Rightarrow> 'a list" where
  "as_list (One x) = [x]"
| "as_list (Many xs) = xs"

text \<open>
  \<open>parsed.references ? (Array.isArray(parsed.references) ? parsed.references :
  [parsed.references]) : undefined\<close>: an array is truthy, a string unless it is empty.
\<close>

fun references_of :: "string one_or_many option \<Rightarrow> string list option" where
  "references_of None = None"
| "references_of (Some (One r)) = (if r = [] then None else Some [r])"
| "references_of (Some (Many rs)) = Some rs"

text \<open>The flag name \<open>Seen\<close> of the IMAP library: a backslash (code unit 92) and \<open>Seen\<close>.\<close>

definition Seen :: string where
  "Seen = CHR 0x5C # ''Seen''"

text \<open>\<open>attrs?.flags?.includes('\\Seen') || false\<close>\<close>

definition isSeen :: "Attrs option \<Rightarrow> bool" where
  "isSeen attrs =
     (case attrs of None \<Rightarrow> False
      | Some a \<Rightarrow> (case a_flags a of None \<Rightarrow> False | Some fs \<Rightarrow> Seen \<in> set fs))"

text \<open>Attachment descriptors of \<open>getMessage\<close>: \<open>parsed.attachments.map((att, index) => ...)\<close>.\<close>

definition attachmentInfo :: "nat \<Rightarrow> Attachment \<Rightarrow> AttachmentInfo" where
  "attachmentInfo index att =
     \<lparr> ai_index = index,
       ai_filename = or_else (att_filename att) (''attachment_'' @ toString index),
       ai_contentType = or_else (att_contentType att) ''application/octet-stream'',
       ai_size = att_size att \<rparr>"

definition attachmentInfos :: "Attachment list \<Rightarrow> AttachmentInfo list" where
  "attachmentInfos atts = map (\<lambda>(index, att). attachmentInfo index att) (enumerate 0 atts)"

text \<open>The message object built by \<open>getMessage\<close>; \<open>now\<close> is \<open>new Date()\<close>.\<close>

definition fullMessage :: "int \<Rightarrow> string \<Rightarrow> Attrs option \<Rightarrow> ParsedMail \<Rightarrow> EmailMessage" where
  "fullMessage now uid attrs parsed =
     (let attachments = attachmentInfos (pm_attachments parsed) in
      \<lparr> em_id = uid,
        em_threadId = uid,
        em_subject = or_else (pm_subject parsed) ''(No Subject)'',
        em_from = or_else (pm_from parsed) '''',
        em_to = (case pm_to parsed of None \<Rightarrow> [] | Some t \<Rightarrow> as_list t),
        em_cc = map_option as_list (pm_cc parsed),
        em_date = (case pm_date parsed of None \<Rightarrow> now | Some d \<Rightarrow> d),
        em_snippet = take 200 (or_else (pm_text parsed) ''''),
        em_body = Some (or_else (pm_text parsed) ''''),
        em_bodyHtml = (if truthy (pm_html parsed) then pm_html parsed else None),
        em_labels = [''INBOX''],
        em_isRead = Some (isSeen attrs),
        em_hasAttachments = Some (length attachments > 0),
        em_attachments = Some attachments,
        em_inReplyTo = pm_inReplyTo parsed,
        em_references = references_of (pm_references parsed),
        em_messageId = pm_messageId parsed \<rparr>)"

definition ImapService_getMessage ::
  "int \<Rightarrow> fetch_reply \<Rightarrow> string \<Rightarrow> thrown + EmailMessage option" where
  "ImapService_getMessage now reply uid =
     (case reply of
        ConnectionError m \<Rightarrow> Inl (Error (''IMAP connection error: '' @ m))
      | OpenBoxError m \<Rightarrow> Inl (Error (''Failed to open inbox: '' @ m))
      | FetchError m \<Rightarrow> Inl (Error (''Fetch error: '' @ m))
      | FetchEmpty \<Rightarrow> Inr None
      | FetchMessage attrs p \<Rightarrow>
          (case p of
             Inl e \<Rightarrow> Inl (Error (''Failed to parse message: '' @ errmsg e))
           | Inr parsed \<Rightarrow> Inr (Some (fullMessage now uid attrs parsed))))"

text \<open>
  The message object built for one member of a thread. A decoder failure, or reading
  \<open>attrs.uid\<close> when no attributes arrived, is caught and logged, and the message is
  left out.
\<close>

definition threadMessage ::
  "int \<Rightarrow> string \<Rightarrow> Attrs option \<times> (thrown + ParsedMail) \<Rightarrow> EmailMessage option" where
  "threadMessage now uid item =
     (case snd item of
        Inl e \<Rightarrow> None
      | Inr parsed \<Rightarrow>
          (case fst item of
             None \<Rightarrow> None
           | Some a \<Rightarrow>
               Some \<lparr> em_id = toString (a_uid a),
                      em_threadId = uid,
                      em_subject = or_else (pm_subject parsed) ''(No Subject)'',
                      em_from = or_else (pm_from parsed) '''',
                      em_to = (case pm_to parsed of None \<Rightarrow> [] | Some t \<Rightarrow> as_list t),
                      em_cc = None,
                      em_date = (case pm_date parsed of None \<Rightarrow> now | Some d \<Rightarrow> d),
                      em_snippet = take 200 (or_else (pm_text parsed) ''''),
                      em_body = Some (or_else (pm_text parsed) ''''),
                      em_bodyHtml = None,
                      em_labels = [''INBOX''],
                      em_isRead = Some (isSeen (Some a)),
                      em_hasAttachments = None,
                      em_attachments = None,
                      em_inReplyTo = None,
                      em_references = None,
                      em_messageId = pm_messageId parsed \<rparr>))"

definition threadMessages ::
  "int \<Rightarrow> string \<Rightarrow> (Attrs option \<times> (thrown + ParsedMail)) list \<Rightarrow> EmailMessage list" where
  "threadMessages now uid items = List.map_filter (threadMessage now uid) items"

text \<open>The set \<open>threadMessageIds\<close> of \<open>getThread\<close>.\<close>

definition threadMessageIds :: "EmailMessage \<Rightarrow> string list" where
  "threadMessageIds m =
     (let s0 = [];
          s1 = (if truthy (em_messageId m) then set_add s0 (the (em_messageId m)) else s0);
          s2 = (if truthy (em_inReplyTo m) then set_add s1 (the (em_inReplyTo m)) else s1)
      in (case em_references m of None \<Rightarrow> s2 | Some refs \<Rightarrow> foldl set_add s2 refs))"

text \<open>\<open>res(err ? [] : (results || []))\<close>\<close>

fun search_ids :: "search_reply \<Rightarrow> nat list" where
  "search_ids SearchErr = []"
| "search_ids SearchNull = []"
| "search_ids (SearchHits ns) = ns"

text \<open>
  \<open>uniqueUids\<close>: for every identifier of the set a search by \<open>MESSAGE-ID\<close>, then for
  every identifier a search by \<open>REFERENCES\<close>; the results in that order (\<open>Promise.all\<close>),
  flattened, without repetitions.
\<close>

definition uniqueUids :: "(header_field \<Rightarrow> string \<Rightarrow> search_reply) \<Rightarrow> string list \<Rightarrow> nat list" where
  "uniqueUids search ids =
     (let allResults =
            map (\<lambda>msgId. search_ids (search MESSAGE_ID msgId)) ids @
            map (\<lambda>msgId. search_ids (search REFERENCES msgId)) ids
      in new_Set (concat allResults))"

text \<open>The comparators of \<open>getThread\<close> (oldest first) and \<open>listMessages\<close> (newest first).\<close>

definition oldest_first :: "EmailMessage \<Rightarrow> EmailMessage \<Rightarrow> int" where
  "oldest_first a b = em_date a - em_date b"

definition newest_first :: "EmailMessage \<Rightarrow> EmailMessage \<Rightarrow> int" where
  "newest_first a b = em_date b - em_date a"

definition singleton_thread :: "string \<Rightarrow> EmailMessage \<Rightarrow> ThreadResult" where
  "singleton_thread uid originalMessage =
     \<lparr> tr_messages = [originalMessage], tr_threadId = uid, tr_messageCount = 1 \<rparr>"

text \<open>
  \<open>getThread\<close>: \<open>reply\<close> is the session of the first \<open>getMessage\<close>, \<open>session\<close> the
  second one. When the fetch ends, the handler sorts the array \<open>messages\<close> as it
  stands, and resolves with an object that holds this very array and its length at
  that moment. What the handlers of the messages push afterwards is appended to the
  array of the object already handed out; the result is that object as the caller
  reads it.
\<close>

definition ImapService_getThread ::
  "int \<Rightarrow> fetch_reply \<Rightarrow> thread_session \<Rightarrow> string \<Rightarrow> thrown + ThreadResult" where
  "ImapService_getThread now reply session uid =
     (case ImapService_getMessage now reply uid of
        Inl e \<Rightarrow> Inl (Error (''Failed to get thread: '' @ errmsg e))
      | Inr None \<Rightarrow> Inr \<lparr> tr_messages = [], tr_threadId = uid, tr_messageCount = 0 \<rparr>
      | Inr (Some originalMessage) \<Rightarrow>
          (let ids = threadMessageIds originalMessage in
           if length ids = 0 then Inr (singleton_thread uid originalMessage)
           else
             (case session of
                SessionError \<Rightarrow> Inr (singleton_thread uid originalMessage)
              | SessionOpenBoxError \<Rightarrow> Inr (singleton_thread uid originalMessage)
              | SessionOpen search fetch \<Rightarrow>
                  if length (uniqueUids search ids) = 0
                    then Inr (singleton_thread uid originalMessage)
                  else
                    (case fetch (uniqueUids search ids) of
                       ThreadFetchError \<Rightarrow> Inr (singleton_thread uid originalMessage)
                     | ThreadFetchEnd early late \<Rightarrow>
                         (let messages = js_sort oldest_first (threadMessages now uid early)
                          in Inr \<lparr> tr_messages = messages @ threadMessages now uid late,
                                   tr_threadId = uid,
                                   tr_messageCount = length messages \<rparr>)))))"


text \<open>\<open>getMessageHeaders\<close>: what \<open>replyToMessage\<close> reads of the target message.\<close>

record MessageHeaders =
  mh_from :: string
  mh_subject :: string
  mh_messageId :: "string option"
  mh_references :: "string list"
  mh_date :: int
  mh_body :: string

text \<open>
  \<open>[...(message.references || []), message.messageId].filter(Boolean)\<close>: the array
  holds strings and possibly \<open>undefined\<close>; \<open>filter(Boolean)\<close> keeps the truthy entries.
\<close>

definition filter_Boolean :: "string option list \<Rightarrow> string list" where
  "filter_Boolean xs = map the (filter truthy xs)"

definition ImapService_getMessageHeaders ::
  "int \<Rightarrow> fetch_reply \<Rightarrow> string \<Rightarrow> thrown + MessageHeaders option" where
  "ImapService_getMessageHeaders now reply uid =
     (case ImapService_getMessage now reply uid of
        Inl e \<Rightarrow> Inl e
      | Inr None \<Rightarrow> Inr None
      | Inr (Some message) \<Rightarrow>
          Inr (Some \<lparr> mh_from = em_from message,
                      mh_subject = em_subject message,
                      mh_messageId = em_messageId message,
                      mh_references =
                        filter_Boolean
                          (map Some (case em_references message of None \<Rightarrow> [] | Some refs \<Rightarrow> refs)
                           @ [em_messageId message]),
                      mh_date = em_date message,
                      mh_body = or_else (em_body message) [] \<rparr>))"

text \<open>\<open>`${n}`\<close> for an integer.\<close>

definition toString_int :: "int \<Rightarrow> string" where
  "toString_int i = (if i < 0 then ''-'' @ toString (nat (- i)) else toString (nat i))"

definition size_limit_error :: "nat \<Rightarrow> int \<Rightarrow> thrown" where
  "size_limit_error sz maxSizeBytes =
     Error (''Attachment size ('' @ toString sz @ '' bytes) exceeds limit (''
            @ toString_int maxSizeBytes @ '' bytes)'')"

text \<open>
  \<open>getAttachment\<close>, for an integer \<open>attachmentIndex\<close>. Below zero the array read gives
  \<open>undefined\<close>, reading its \<open>size\<close> throws a \<open>TypeError\<close>, and the handler rejects with
  its message.
\<close>

definition undefined_size_message :: string where
  "undefined_size_message = ''Cannot read properties of undefined (reading 'size')''"

definition ImapService_getAttachment ::
  "fetch_reply \<Rightarrow> string \<Rightarrow> int \<Rightarrow> int \<Rightarrow> thrown + AttachmentContent option" where
  "ImapService_getAttachment reply uid attachmentIndex maxSizeBytes =
     (case reply of
        ConnectionError m \<Rightarrow> Inl (Error (''IMAP connection error: '' @ m))
      | OpenBoxError m \<Rightarrow> Inl (Error (''Failed to open inbox: '' @ m))
      | FetchError m \<Rightarrow> Inl (Error (''Fetch error: '' @ m))
      | FetchEmpty \<Rightarrow> Inr None
      | FetchMessage attrs p \<Rightarrow>
          (case p of
             Inl e \<Rightarrow> Inl (Error (''Failed to parse attachment: '' @ errmsg e))
           | Inr parsed \<Rightarrow>
               if length (pm_attachments parsed) = 0 then Inr None
               else if attachmentIndex \<ge> int (length (pm_attachments parsed)) then Inr None
               else if attachmentIndex < 0
                 then Inl (Error (''Failed to parse attachment: '' @ undefined_size_message))
               else
                 (let attachment = pm_attachments parsed ! nat attachmentIndex in
                  if int (att_size attachment) > maxSizeBytes
                    then Inl (size_limit_error (att_size attachment) maxSizeBytes)
                  else Inr (Some \<lparr> ac_filename =
                                      or_else (att_filename attachment)
                                        (''attachment_'' @ toString_int attachmentIndex),
                                    ac_contentType =
                                      or_else (att_contentType attachment)
                                        ''application/octet-stream'',
                                    ac_size = att_size attachment,
                                    ac_content = att_content attachment \<rparr>))))"

text \<open>
  \<open>listMessages\<close> fetches headers only. The session fails to connect, fails to open
  the inbox, or reports the number of messages of the inbox and answers the fetch of
  a range of sequence numbers: with an error, or with the messages handled when the
  fetch ends, each with its attributes and the record \<open>parseHeaders\<close> made of its
  header block.
\<close>

datatype list_fetch =
    ListFetchError string
  | ListFetchEnd "(Attrs option \<times> (string \<Rightarrow> string option)) list"

datatype list_session =
    ListConnectionError string
  | ListOpenBoxError string
  | ListOpen nat "int \<times> int \<Rightarrow> list_fetch"

text \<open>\<open>s.split(/\s+/)\<close>\<close>

function split_ws :: "string \<Rightarrow> string list" where
  "split_ws s =
     (if dropWhile (\<lambda>c. \<not> isSpace c) s = [] then [takeWhile (\<lambda>c. \<not> isSpace c) s]
      else takeWhile (\<lambda>c. \<not> isSpace c) s
             # split_ws (dropWhile isSpace (dropWhile (\<lambda>c. \<not> isSpace c) s)))"
  by pat_completeness auto

termination
proof (relation "measure length")
  show "wf (measure length)" by simp
next
  fix s :: string
  assume ne: "dropWhile (\<lambda>c. \<not> isSpace c) s \<noteq> []"
  define r where "r = dropWhile (\<lambda>c. \<not> isSpace c) s"
  from ne have "isSpace (hd r)"
    unfolding r_def using hd_dropWhile [of "\<lambda>c. \<not> isSpace c" s] by simp
  with ne have "length (dropWhile isSpace r) < length r"
    unfolding r_def by (cases "dropWhile (\<lambda>c. \<not> isSpace c) s")
      (auto simp: less_Suc_eq_le length_dropWhile_le)
  moreover have "length r \<le> length s"
    unfolding r_def by (rule length_dropWhile_le)
  ultimately show "(dropWhile isSpace (dropWhile (\<lambda>c. \<not> isSpace c) s), s) \<in> measure length"
    unfolding r_def by simp
qed

declare split_ws.simps [simp del]

text \<open>\<open>h.split(',').map(e => e.trim()).filter(Boolean)\<close>\<close>

definition address_list :: "string \<Rightarrow> string list" where
  "address_list h = filter (\<lambda>e. e \<noteq> []) (map trim (split (CHR '','') h))"

text \<open>The text \<open>"disposition":["attachment"\<close> looked for in the serialised body structure.\<close>

definition attachment_marker :: string where
  "attachment_marker =
     (let q = CHR 0x22 in
      [q] @ ''disposition'' @ [q] @ '':['' @ [q] @ ''attachment'' @ [q])"


text \<open>
  The message object built by \<open>listMessages\<close>. Reading \<open>attrs.struct\<close> when no
  attributes arrived throws; that is caught and logged and the message is left out.
\<close>

definition listMessage ::
  "int \<Rightarrow> Attrs option \<times> (string \<Rightarrow> string option) \<Rightarrow> EmailMessage option" where
  "listMessage now item =
     (case fst item of
        None \<Rightarrow> None
      | Some a \<Rightarrow>
          (let headers = snd item;
               hasAttachments =
                 (case a_struct a of None \<Rightarrow> None
                  | Some json \<Rightarrow> Some (includes_str json attachment_marker))
           in Some \<lparr> em_id = toString (a_uid a),
                     em_threadId = toString (a_uid a),
                     em_subject = or_else (headers ''subject'') ''(No Subject)'',
                     em_from = or_else (headers ''from'') [],
                     em_to = address_list (or_else (headers ''to'') []),
                     em_cc = (if truthy (headers ''cc'')
                              then Some (address_list (the (headers ''cc''))) else None),
                     em_date = (case a_date a of None \<Rightarrow> now | Some d \<Rightarrow> d),
                     em_snippet = or_else (headers ''subject'') ''(No Subject)'' @ '' - ''
                                  @ or_else (headers ''from'') ''Unknown sender'',
                     em_body = None,
                     em_bodyHtml = None,
                     em_labels = [''INBOX''],
                     em_isRead = Some (isSeen (Some a)),
                     em_hasAttachments = hasAttachments,
                     em_attachments = None,
                     em_inReplyTo = headers ''in-reply-to'',
                     em_references =
                       map_option (\<lambda>r. filter (\<lambda>e. e \<noteq> []) (split_ws r)) (headers ''references''),
                     em_messageId = headers ''message-id'' \<rparr>))"

definition ImapService_listMessages ::
  "int \<Rightarrow> list_session \<Rightarrow> int \<Rightarrow> thrown + EmailMessage list" where
  "ImapService_listMessages now session count =
     (case session of
        ListConnectionError m \<Rightarrow> Inl (Error (''IMAP connection error: '' @ m))
      | ListOpenBoxError m \<Rightarrow> Inl (Error (''Failed to open inbox: '' @ m))
      | ListOpen box_total fetch \<Rightarrow>
          if box_total = 0 then Inr []
          else
            (let start = max 1 (int box_total - count + 1) in
             case fetch (start, int box_total) of
               ListFetchError m \<Rightarrow> Inl (Error (''Fetch error: '' @ m))
             | ListFetchEnd items \<Rightarrow>
                 Inr (js_sort newest_first (List.map_filter (listMessage now) items))))"


section \<open>SmtpService (smtp-service.ts)\<close>

record ReplyParams =
  rp_to :: string
  rp_subject :: string
  rp_body :: string
  rp_inReplyTo :: "string option"
  rp_references :: "string list option"
  rp_cc :: "string option"

text \<open>The options handed to \<open>transporter.sendMail\<close>.\<close>

record SendMailOptions =
  mo_from :: string
  mo_to :: string
  mo_subject :: string
  mo_text :: string
  mo_cc :: "string option"
  mo_inReplyTo :: "string option"
  mo_references :: "string option"

definition failure :: "string \<Rightarrow> SendResult" where
  "failure m = \<lparr> sr_messageId = [], sr_success = False, sr_message = m \<rparr>"

text \<open>
  The \<open>mailOptions\<close> of \<open>sendReply\<close>; \<open>user\<close> is \<open>config.user\<close>. The threading
  headers are set only when there is something to set.
\<close>

definition mailOptions :: "string \<Rightarrow> ReplyParams \<Rightarrow> SendMailOptions" where
  "mailOptions user params =
     (let mailOptions0 =
            \<lparr> mo_from = user,
              mo_to = rp_to params,
              mo_subject = (if startsWith (rp_subject params) ''Re:'' then rp_subject params
                            else ''Re: '' @ rp_subject params),
              mo_text = rp_body params,
              mo_cc = rp_cc params,
              mo_inReplyTo = None,
              mo_references = None \<rparr>;
          mailOptions1 =
            (if truthy (rp_inReplyTo params)
               then mailOptions0 \<lparr> mo_inReplyTo := rp_inReplyTo params \<rparr>
             else mailOptions0)
      in (case rp_references params of
            None \<Rightarrow> mailOptions1
          | Some refs \<Rightarrow>
              if length refs > 0
                then mailOptions1 \<lparr> mo_references := Some (join '' '' refs) \<rparr>
              else mailOptions1))"

text \<open>
  The transporter of the mail library: what it answers to a mail (it throws, or
  returns the \<open>messageId\<close> of its \<open>info\<close>), and the mails it has been handed so far,
  oldest first. \<open>transporter.sendMail(mailOptions)\<close> hands it one more mail.
\<close>

record Transporter =
  tp_answer :: "SendMailOptions \<Rightarrow> thrown + string"
  tp_received :: "SendMailOptions list"

definition sendMail :: "SendMailOptions \<Rightarrow> Transporter \<Rightarrow> (thrown + string) \<times> Transporter" where
  "sendMail options t = (tp_answer t options, t \<lparr> tp_received := tp_received t @ [options] \<rparr>)"

text \<open>\<open>sendReply\<close>: the result and the transporter afterwards.\<close>

definition sendReply :: "string \<Rightarrow> ReplyParams \<Rightarrow> Transporter \<Rightarrow> SendResult \<times> Transporter" where
  "sendReply user params t =
     (if rp_to params = [] \<or> \<not> includesChar (rp_to params) (CHR ''@'')
        then (failure ''Invalid recipient email address'', t)
      else
        (case sendMail (mailOptions user params) t of
           (Inl e, t') \<Rightarrow> (failure (''Failed to send reply: '' @ errmsg e), t')
         | (Inr info_messageId, t') \<Rightarrow>
             (\<lparr> sr_messageId = info_messageId, sr_success = True,
                sr_message = ''Reply sent successfully'' \<rparr>, t')))"


section \<open>EmailOperations\<close>

record ReplyToMessageParams =
  rm_id :: string
  rm_body :: string
  rm_includeQuote :: bool

text \<open>
  The regular expression \<open>/<([^>]+)>/\<close>. Tried at the start of \<open>s\<close> it needs a
  \<open><\<close>, then takes the longest run of characters other than \<open>>\<close>, which must not be
  empty and must be followed by a \<open>>\<close>; a shorter run is followed by a character of
  the run, so backtracking finds nothing more.
\<close>

definition angle_at :: "string \<Rightarrow> string option" where
  "angle_at s =
     (case s of
        [] \<Rightarrow> None
      | c # rest \<Rightarrow>
          if c = CHR ''<''
            then (let g = takeWhile (\<lambda>x. x \<noteq> CHR ''>'') rest
                  in if g \<noteq> [] \<and> length g < length rest then Some g else None)
          else None)"

text \<open>
  \<open>String.prototype.match\<close> with a regular expression that has no flags tries the
  expression at every start from the left and returns the group of the first success;
  neither expression matches the empty rest.
\<close>

fun leftmost :: "(string \<Rightarrow> string option) \<Rightarrow> string \<Rightarrow> string option" where
  "leftmost at [] = None"
| "leftmost at (c # cs) =
     (case at (c # cs) of Some g \<Rightarrow> Some g | None \<Rightarrow> leftmost at cs)"

definition match_angle :: "string \<Rightarrow> string option" where
  "match_angle h = leftmost angle_at h"

text \<open>
  The regular expression \<open>/([^\s<]+@[^\s>]+)/\<close>. Tried at the start of \<open>s\<close>, the
  first part takes the longest run of characters that are neither white space nor
  \<open><\<close> and gives characters back until what it has left is not empty and is followed
  by an \<open>@\<close> and by one more character that is neither white space nor \<open>>\<close>: the
  \<open>@\<close> is the last such one of the run. The last part then takes the longest run of
  characters that are neither white space nor \<open>>\<close>.
\<close>

definition bare_at :: "string \<Rightarrow> string option" where
  "bare_at s =
     (let run = takeWhile (\<lambda>c. \<not> isSpace c \<and> c \<noteq> CHR ''<'') s;
          js = filter (\<lambda>j. s ! j = CHR ''@'' \<and> Suc j < length s
                             \<and> \<not> isSpace (s ! Suc j) \<and> s ! Suc j \<noteq> CHR ''>'')
                 [1 ..< length run]
      in if js = [] then None
         else Some (take (Suc (last js)) s
                    @ takeWhile (\<lambda>c. \<not> isSpace c \<and> c \<noteq> CHR ''>'') (drop (Suc (last js)) s)))"

definition match_bare :: "string \<Rightarrow> string option" where
  "match_bare h = leftmost bare_at h"

text \<open>\<open>from.match(/<([^>]+)>/) || from.match(/([^\s<]+@[^\s>]+)/)\<close>, group 1.\<close>

definition fromMatch :: "string \<Rightarrow> string option" where
  "fromMatch h = (case match_angle h of Some g \<Rightarrow> Some g | None \<Rightarrow> match_bare h)"

definition replyTo :: "string \<Rightarrow> string" where
  "replyTo h = (case fromMatch h of Some g \<Rightarrow> g | None \<Rightarrow> h)"

definition newline :: char where
  "newline = CHR 0x0A"

definition quotedBody :: "string \<Rightarrow> string" where
  "quotedBody body = join [newline] (map (\<lambda>line. ''> '' @ line) (split newline body))"

text \<open>
  The reply body; \<open>toLocaleString\<close> renders a date in the locale of the process.
\<close>

definition replyBody ::
  "(int \<Rightarrow> string) \<Rightarrow> ReplyToMessageParams \<Rightarrow> MessageHeaders \<Rightarrow> string" where
  "replyBody toLocaleString params originalHeaders =
     (if rm_includeQuote params \<and> mh_body originalHeaders \<noteq> []
        then rm_body params @ [newline, newline] @ ''---'' @ [newline] @ ''On ''
             @ toLocaleString (mh_date originalHeaders) @ '', '' @ mh_from originalHeaders
             @ '' wrote:'' @ [newline] @ quotedBody (mh_body originalHeaders)
      else rm_body params)"

text \<open>The \<open>try\<close> block of \<open>replyToMessage\<close>.\<close>

definition replyToMessage_try ::
  "int \<Rightarrow> fetch_reply \<Rightarrow> (int \<Rightarrow> string) \<Rightarrow> string \<Rightarrow> Transporter
     \<Rightarrow> ReplyToMessageParams \<Rightarrow> thrown + SendResult \<times> Transporter" where
  "replyToMessage_try now reply toLocaleString user t params =
     (case ImapService_getMessageHeaders now reply (rm_id params) of
        Inl e \<Rightarrow> Inl e
      | Inr None \<Rightarrow> Inr (failure ''Original message not found'', t)
      | Inr (Some originalHeaders) \<Rightarrow>
          if replyTo (mh_from originalHeaders) = []
             \<or> \<not> includesChar (replyTo (mh_from originalHeaders)) (CHR ''@'')
            then Inr (failure ''Could not determine reply address from original message'', t)
          else
            Inr (sendReply user
                   \<lparr> rp_to = replyTo (mh_from originalHeaders),
                     rp_subject = mh_subject originalHeaders,
                     rp_body = replyBody toLocaleString params originalHeaders,
                     rp_inReplyTo = mh_messageId originalHeaders,
                     rp_references = Some (mh_references originalHeaders),
                     rp_cc = None \<rparr> t))"

text \<open>
  \<open>replyToMessage\<close> with its \<open>catch\<close>: the outcome (thrown or returned) and the
  transporter afterwards. What is thrown in the \<open>try\<close> block is thrown by
  \<open>getMessageHeaders\<close>, before the transporter is used.
\<close>

definition EmailOperations_replyToMessage ::
  "int \<Rightarrow> fetch_reply \<Rightarrow> (int \<Rightarrow> string) \<Rightarrow> string \<Rightarrow> Transporter
     \<Rightarrow> ReplyToMessageParams \<Rightarrow> (thrown + SendResult) \<times> Transporter" where
  "EmailOperations_replyToMessage now reply toLocaleString user t params =
     (case replyToMessage_try now reply toLocaleString user t params of
        Inl e \<Rightarrow> (Inr (failure (''Failed to send reply: '' @ errmsg e)), t)
      | Inr (result, t') \<Rightarrow> (Inr result, t'))"

definition EmailOperations_getMessage ::
  "int \<Rightarrow> fetch_reply \<Rightarrow> string \<Rightarrow> thrown + EmailMessage option" where
  "EmailOperations_getMessage now reply uid =
     (case ImapService_getMessage now reply uid of
        Inl e \<Rightarrow> Inl (Error (''Failed to get message: '' @ errmsg e))
      | Inr m \<Rightarrow> Inr m)"

definition EmailOperations_listMessages ::
  "int \<Rightarrow> list_session \<Rightarrow> int \<Rightarrow> thrown + EmailMessage list" where
  "EmailOperations_listMessages now session count =
     (case ImapService_listMessages now session count of
        Inl e \<Rightarrow> Inl (Error (''Failed to list messages: '' @ errmsg e))
      | Inr ms \<Rightarrow> Inr ms)"

definition EmailOperations_getThread ::
  "int \<Rightarrow> fetch_reply \<Rightarrow> thread_session \<Rightarrow> string \<Rightarrow> thrown + ThreadResult" where
  "EmailOperations_getThread now reply session uid =
     (case ImapService_getThread now reply session uid of
        Inl e \<Rightarrow> Inl (Error (''Failed to get thread: '' @ errmsg e))
      | Inr t \<Rightarrow> Inr t)"

definition EmailOperations_getAttachment ::
  "fetch_reply \<Rightarrow> string \<Rightarrow> int \<Rightarrow> int \<Rightarrow> thrown + AttachmentContent option" where
  "EmailOperations_getAttachment reply messageId attachmentIndex maxSizeBytes =
     (case ImapService_getAttachment reply messageId attachmentIndex maxSizeBytes of
        Inl e \<Rightarrow> Inl (Error (''Failed to get attachment: '' @ errmsg e))
      | Inr a \<Rightarrow> Inr a)"


section \<open>The reply address, in words\<close>

text \<open>
  An angle pair of a header is a \<open><\<close>, a text that is not empty and holds no \<open>>\<close>,
  and a \<open>>\<close>; the first one is the one that starts furthest to the left.
\<close>

definition angle_pair :: "string \<Rightarrow> string \<Rightarrow> string \<Rightarrow> string \<Rightarrow> bool" where
  "angle_pair h pre g post \<longleftrightarrow>
     h = pre @ ''<'' @ g @ ''>'' @ post \<and> g \<noteq> [] \<and> CHR ''>'' \<notin> set g"

definition first_angle_pair :: "string \<Rightarrow> string \<Rightarrow> bool" where
  "first_angle_pair h g \<longleftrightarrow>
     (\<exists>pre post. angle_pair h pre g post
        \<and> (\<forall>pre' g' post'. angle_pair h pre' g' post' \<longrightarrow> length pre \<le> length pre'))"

text \<open>
  A bare token of a header is a local part that is not empty and holds neither white
  space nor \<open><\<close>, an \<open>@\<close>, and a domain part that is not empty, holds neither white
  space nor \<open>>\<close> and runs up to the end of the header, to white space or to a \<open>>\<close>.
  The first one is the one that starts furthest to the left and, of those that start
  there, the one with the longest local part.
\<close>

definition bare_token :: "string \<Rightarrow> string \<Rightarrow> string \<Rightarrow> string \<Rightarrow> string \<Rightarrow> bool" where
  "bare_token h pre l d post \<longleftrightarrow>
     h = pre @ l @ ''@'' @ d @ post
     \<and> l \<noteq> [] \<and> (\<forall>c \<in> set l. \<not> isSpace c \<and> c \<noteq> CHR ''<'')
     \<and> d \<noteq> [] \<and> (\<forall>c \<in> set d. \<not> isSpace c \<and> c \<noteq> CHR ''>'')
     \<and> (post = [] \<or> isSpace (hd post) \<or> hd post = CHR ''>'')"

definition first_bare_token :: "string \<Rightarrow> string \<Rightarrow> bool" where
  "first_bare_token h tok \<longleftrightarrow>
     (\<exists>pre l d post. tok = l @ ''@'' @ d \<and> bare_token h pre l d post
        \<and> (\<forall>pre' l' d' post'. bare_token h pre' l' d' post' \<longrightarrow>
              length pre < length pre'
              \<or> (length pre = length pre' \<and> length l' \<le> length l)))"


section \<open>A mailbox for the scenarios of the specification\<close>

text \<open>
  Message 19 of the scenarios: it answers \<open><b@x>\<close> in a conversation started by
  \<open><c@x>\<close>. Messages 17 and 18 belong to the same conversation; 18 and 19 carry the
  same date.
\<close>

definition mail ::
  "string \<Rightarrow> string \<Rightarrow> int \<Rightarrow> string \<Rightarrow> string option \<Rightarrow> string option
     \<Rightarrow> string one_or_many option \<Rightarrow> ParsedMail" where
  "mail sender subject date text messageId inReplyTo references =
     \<lparr> pm_subject = Some subject, pm_from = Some sender,
       pm_to = Some (One ''me@example.com''), pm_cc = None, pm_date = Some date,
       pm_text = Some text, pm_html = None, pm_messageId = messageId,
       pm_inReplyTo = inReplyTo, pm_references = references, pm_attachments = [] \<rparr>"

definition attrs_of :: "nat \<Rightarrow> Attrs" where
  "attrs_of n = \<lparr> a_uid = n, a_flags = Some [Seen], a_date = None, a_struct = None \<rparr>"

definition parsed19 :: ParsedMail where
  "parsed19 =
     mail ''Jane Doe <jane@example.com>'' ''Meeting'' 1700000005000
       (''line1'' @ [newline] @ ''line2'')
       (Some ''<a@x>'') (Some ''<b@x>'') (Some (Many [''<b@x>'', ''<c@x>'']))"

definition parsed18 :: ParsedMail where
  "parsed18 =
     mail ''me@example.com'' ''Re: Meeting'' 1700000005000 ''see you''
       (Some ''<d@x>'') (Some ''<b@x>'') (Some (Many [''<b@x>'', ''<c@x>'']))"

definition parsed17 :: ParsedMail where
  "parsed17 =
     mail ''Jane Doe <jane@example.com>'' ''Meeting'' 1700000003000 ''when?''
       (Some ''<b@x>'') (Some ''<c@x>'') (Some (One ''<c@x>''))"

definition reply19 :: fetch_reply where
  "reply19 = FetchMessage (Some (attrs_of 19)) (Inr parsed19)"

text \<open>A mailbox whose searches find the conversation, and one whose searches find nothing.\<close>

definition search_x :: "header_field \<Rightarrow> string \<Rightarrow> search_reply" where
  "search_x field msgId =
     (if field = MESSAGE_ID \<and> msgId = ''<a@x>'' then SearchHits [19]
      else if field = MESSAGE_ID \<and> msgId = ''<b@x>'' then SearchHits [17]
      else if field = REFERENCES \<and> msgId = ''<b@x>'' then SearchHits [19, 18]
      else if field = REFERENCES \<and> msgId = ''<c@x>'' then SearchHits [17, 19, 18]
      else if field = MESSAGE_ID then SearchNull
      else SearchErr)"

definition items_x :: "(Attrs option \<times> (thrown + ParsedMail)) list" where
  "items_x =
     [(Some (attrs_of 19), Inr parsed19), (Some (attrs_of 17), Inr parsed17),
      (Some (attrs_of 18), Inr parsed18)]"

text \<open>
  The batch fetch delivers the three messages; none of them is decoded before the
  fetch ends.
\<close>

definition fetch_x :: "nat list \<Rightarrow> thread_fetch" where
  "fetch_x uids = (if uids = [19, 17, 18] then ThreadFetchEnd [] items_x else ThreadFetchError)"

definition session_x :: thread_session where
  "session_x = SessionOpen search_x fetch_x"



definition search_nothing :: "header_field \<Rightarrow> string \<Rightarrow> search_reply" where
  "search_nothing field msgId = (if field = MESSAGE_ID then SearchHits [] else SearchNull)"

definition session_nothing :: thread_session where
  "session_nothing = SessionOpen search_nothing fetch_x"

text \<open>A message without threading headers.\<close>

definition parsed_plain :: ParsedMail where
  "parsed_plain = mail ''Jane Doe'' ''Hello'' 1700000000000 ''hi'' None None None"

definition reply_plain :: fetch_reply where
  "reply_plain = FetchMessage (Some (attrs_of 7)) (Inr parsed_plain)"

definition message19 :: EmailMessage where
  "message19 = fullMessage 0 ''19'' (Some (attrs_of 19)) parsed19"

definition message_plain :: EmailMessage where
  "message_plain = fullMessage 0 ''7'' (Some (attrs_of 7)) parsed_plain"












text \<open>
  Replies: the account, a transporter that accepts every mail, one that refuses every
  mail, the rendering of dates, and the requests of the scenarios.
\<close>

definition account :: string where
  "account = ''me@example.com''"

definition accepted :: "SendMailOptions \<Rightarrow> thrown + string" where
  "accepted options = Inr ''<reply@smtp>''"

definition refused :: "SendMailOptions \<Rightarrow> thrown + string" where
  "refused options = Inl (Error ''connect ECONNREFUSED'')"

definition transporter_ok :: Transporter where
  "transporter_ok = \<lparr> tp_answer = accepted, tp_received = [] \<rparr>"

definition transporter_down :: Transporter where
  "transporter_down = \<lparr> tp_answer = refused, tp_received = [] \<rparr>"

definition locale_date :: "int \<Rightarrow> string" where
  "locale_date d = ''11/14/2023, 10:13:25 PM''"

definition thanks :: ReplyToMessageParams where
  "thanks = \<lparr> rm_id = ''19'', rm_body = ''Thanks!'', rm_includeQuote = False \<rparr>"

definition thanks_quoting :: ReplyToMessageParams where
  "thanks_quoting = \<lparr> rm_id = ''19'', rm_body = ''Thanks!'', rm_includeQuote = True \<rparr>"

definition reply18 :: fetch_reply where
  "reply18 = FetchMessage (Some (attrs_of 18)) (Inr parsed18)"

definition message18 :: EmailMessage where
  "message18 = fullMessage 0 ''18'' (Some (attrs_of 18)) parsed18"

definition thanks18 :: ReplyToMessageParams where
  "thanks18 = \<lparr> rm_id = ''18'', rm_body = ''Thanks!'', rm_includeQuote = False \<rparr>"

text \<open>A sender whose header holds an \<open>@\<close> but no address, and the request to answer.\<close>

definition parsed_home :: ParsedMail where
  "parsed_home = mail ''Jane Doe @home'' ''Hello'' 1700000000000 ''hi'' None None None"

definition reply_home :: fetch_reply where
  "reply_home = FetchMessage (Some (attrs_of 8)) (Inr parsed_home)"

definition thanks_home :: ReplyToMessageParams where
  "thanks_home = \<lparr> rm_id = ''8'', rm_body = ''Thanks!'', rm_includeQuote = False \<rparr>"

definition thanks_plain :: ReplyToMessageParams where
  "thanks_plain = \<lparr> rm_id = ''7'', rm_body = ''Thanks!'', rm_includeQuote = False \<rparr>"

text \<open>The mails the transporter holds after these requests.\<close>

definition sent_thanks :: "SendMailOptions list" where
  "sent_thanks =
     tp_received
       (snd (EmailOperations_replyToMessage 0 reply19 locale_date account transporter_ok thanks))"

definition sent_thanks_quoting :: "SendMailOptions list" where
  "sent_thanks_quoting =
     tp_received
       (snd (EmailOperations_replyToMessage 0 reply19 locale_date account transporter_ok
               thanks_quoting))"

definition sent_thanks18 :: "SendMailOptions list" where
  "sent_thanks18 =
     tp_received
       (snd (EmailOperations_replyToMessage 0 reply18 locale_date account transporter_ok
               thanks18))"


text \<open>A message with one attachment of 2048 bytes, without a declared content type.\<close>

definition report :: Attachment where
  "report =
     \<lparr> att_filename = Some ''report.pdf'', att_contentType = None, att_size = 2048,
       att_content = ''JVBERi0='' \<rparr>"

definition parsed_report :: ParsedMail where
  "parsed_report =
     (mail ''Jane Doe <jane@example.com>'' ''Report'' 1700000009000 ''see attachment''
        (Some ''<r@x>'') None None) \<lparr> pm_attachments := [report] \<rparr>"

definition reply_report :: fetch_reply where
  "reply_report = FetchMessage (Some (attrs_of 21)) (Inr parsed_report)"


section \<open>Sorting\<close>

text \<open>
  With a comparator that subtracts keys, \<open>js_sort\<close> is the stable insertion sort by
  that key.
\<close>

lemma insert_by_key: "insert_by (\<lambda>a b. f a - f b) x xs = insort_key f x xs"
  by (induction xs) auto

lemma js_sort_key: "js_sort (\<lambda>a b. f a - f b) xs = sort_key f xs"
proof -
  have "insert_by (\<lambda>a b. f a - f b) = insort_key f"
    by (intro ext) (rule insert_by_key)
  then show ?thesis
    by (simp add: js_sort_def sort_key_def)
qed

lemma js_sort_oldest_first: "js_sort oldest_first xs = sort_key em_date xs"
proof -
  have eq: "oldest_first = (\<lambda>a b. em_date a - em_date b)"
    by (intro ext) (simp add: oldest_first_def)
  show ?thesis
    unfolding eq by (rule js_sort_key)
qed

lemma js_sort_newest_first: "js_sort newest_first xs = sort_key (\<lambda>m. - em_date m) xs"
proof -
  have eq: "newest_first = (\<lambda>a b. (- em_date a) - (- em_date b))"
    by (intro ext) (simp add: newest_first_def)
  show ?thesis
    unfolding eq by (rule js_sort_key [of "\<lambda>m. - em_date m"])
qed

lemma ascending_oldest_first:
  "sorted_wrt (\<lambda>a b. em_date a \<le> em_date b) (js_sort oldest_first xs)"
proof -
  have "sorted (map em_date (sort_key em_date xs))"
    by (rule sorted_sort_key)
  then show ?thesis
    by (simp add: js_sort_oldest_first sorted_map)
qed

lemma stable_oldest_first:
  "filter (\<lambda>m. em_date m = d) (js_sort oldest_first xs) = filter (\<lambda>m. em_date m = d) xs"
  by (simp add: js_sort_oldest_first sort_key_stable)

lemma descending_newest_first:
  "sorted_wrt (\<lambda>a b. em_date a \<ge> em_date b) (js_sort newest_first xs)"
proof -
  have "sorted (map (\<lambda>m. - em_date m) (sort_key (\<lambda>m. - em_date m) xs))"
    by (rule sorted_sort_key)
  then show ?thesis
    by (simp add: js_sort_newest_first sorted_map)
qed




lemma listMessages_cases:
  assumes "ImapService_listMessages now session count = Inr ms"
  shows "ms = [] \<or> (\<exists>items. ms = js_sort newest_first (List.map_filter (listMessage now) items))"
  using assms
  by (auto simp: ImapService_listMessages_def Let_def
           split: list_session.splits if_splits list_fetch.splits)


lemma uniqueUids_nothing:
  assumes "\<forall>field. \<forall>msgId \<in> set ids. search_ids (search field msgId) = []"
  shows "uniqueUids search ids = []"
proof -
  have none: "concat (map (\<lambda>msgId. search_ids (search field msgId)) ids) = []" for field
    using assms by (induction ids) auto
  show ?thesis
    by (simp add: uniqueUids_def new_Set_def none [of MESSAGE_ID] none [of REFERENCES])
qed

lemma threadMessageIds_no_headers:
  assumes "em_messageId m = None" "em_inReplyTo m = None" "em_references m = None"
  shows "threadMessageIds m = []"
  using assms by (simp add: threadMessageIds_def)


section \<open>The order of a thread\<close>

text \<open>
  What the sort of \<open>getThread\<close> achieves: when no message is decoded after the end of
  the batch fetch, the thread is in ascending order of the dates, and messages of one
  date keep the order in which they were collected. \<open>listMessages\<close>, whose handlers
  do not wait, always answers in descending order.
\<close>

lemma getThread_in_time_oldest_first:
  assumes "ImapService_getMessage now reply uid = Inr (Some orig)"
    and "threadMessageIds orig \<noteq> []"
    and "uniqueUids search (threadMessageIds orig) \<noteq> []"
    and "fetch (uniqueUids search (threadMessageIds orig)) = ThreadFetchEnd early []"
  shows "\<exists>t. ImapService_getThread now reply (SessionOpen search fetch) uid = Inr t
           \<and> sorted_wrt (\<lambda>a b. em_date a \<le> em_date b) (tr_messages t)
           \<and> (\<forall>d. filter (\<lambda>m. em_date m = d) (tr_messages t)
                  = filter (\<lambda>m. em_date m = d) (threadMessages now uid early))
           \<and> tr_messageCount t = length (tr_messages t)"
proof -
  have "ImapService_getThread now reply (SessionOpen search fetch) uid
      = Inr \<lparr> tr_messages = js_sort oldest_first (threadMessages now uid early)
                             @ threadMessages now uid [],
              tr_threadId = uid,
              tr_messageCount = length (js_sort oldest_first (threadMessages now uid early)) \<rparr>"
    using assms by (simp add: ImapService_getThread_def Let_def)
  then show ?thesis
    by (simp add: threadMessages_def ascending_oldest_first stable_oldest_first)
qed

lemma listMessages_newest_first:
  assumes "ImapService_listMessages now inbox count = Inr ms"
  shows "sorted_wrt (\<lambda>a b. em_date a \<ge> em_date b) ms"
  using listMessages_cases [OF assms] by (auto simp: descending_newest_first)



section \<open>The singleton thread\<close>

text \<open>
  Claim C2. When the first fetch delivers the target message, and the message carries
  no Message-ID, no In-Reply-To and no References, or the second session is open and
  every search for an identifier of the message comes back without message numbers,
  then \<open>getThread\<close> returns the thread that holds exactly the target message, with
  count 1; it is never empty.
\<close>

theorem getThread_singleton_fallback:
  assumes "ImapService_getMessage now reply uid = Inr (Some orig)"
    and "(em_messageId orig = None \<and> em_inReplyTo orig = None \<and> em_references orig = None)
         \<or> (\<exists>search fetch. session = SessionOpen search fetch
               \<and> (\<forall>field. \<forall>msgId \<in> set (threadMessageIds orig).
                     search_ids (search field msgId) = []))"
  shows "ImapService_getThread now reply session uid
           = Inr \<lparr> tr_messages = [orig], tr_threadId = uid, tr_messageCount = 1 \<rparr>
         \<and> EmailOperations_getThread now reply session uid
           = Inr \<lparr> tr_messages = [orig], tr_threadId = uid, tr_messageCount = 1 \<rparr>"
proof -
  have "ImapService_getThread now reply session uid
           = Inr \<lparr> tr_messages = [orig], tr_threadId = uid, tr_messageCount = 1 \<rparr>"
    using assms(2)
  proof
    assume "em_messageId orig = None \<and> em_inReplyTo orig = None \<and> em_references orig = None"
    then have "threadMessageIds orig = []"
      by (simp add: threadMessageIds_no_headers)
    with assms(1) show ?thesis
      by (simp add: ImapService_getThread_def singleton_thread_def)
  next
    assume "\<exists>search fetch. session = SessionOpen search fetch
               \<and> (\<forall>field. \<forall>msgId \<in> set (threadMessageIds orig).
                     search_ids (search field msgId) = [])"
    then obtain search fetch where s: "session = SessionOpen search fetch"
      and none: "\<forall>field. \<forall>msgId \<in> set (threadMessageIds orig). search_ids (search field msgId) = []"
      by blast
    have "uniqueUids search (threadMessageIds orig) = []"
      using none by (rule uniqueUids_nothing)
    with assms(1) s show ?thesis
      by (simp add: ImapService_getThread_def singleton_thread_def Let_def)
  qed
  then show ?thesis
    by (simp add: EmailOperations_getThread_def)
qed

theorem getThread_singleton_fallback_witness:
  "ImapService_getMessage 0 reply_plain ''7'' = Inr (Some message_plain)
   \<and> em_messageId message_plain = None \<and> em_inReplyTo message_plain = None
   \<and> em_references message_plain = None
   \<and> ImapService_getThread 0 reply_plain session_x ''7''
       = Inr \<lparr> tr_messages = [message_plain], tr_threadId = ''7'', tr_messageCount = 1 \<rparr>
   \<and> ImapService_getMessage 0 reply19 ''19'' = Inr (Some message19)
   \<and> threadMessageIds message19 = [''<a@x>'', ''<b@x>'', ''<c@x>'']
   \<and> map (\<lambda>msgId. search_ids (search_nothing MESSAGE_ID msgId)) (threadMessageIds message19)
       = [[], [], []]
   \<and> map (\<lambda>msgId. search_ids (search_nothing REFERENCES msgId)) (threadMessageIds message19)
       = [[], [], []]
   \<and> ImapService_getThread 0 reply19 session_nothing ''19''
       = Inr \<lparr> tr_messages = [message19], tr_threadId = ''19'', tr_messageCount = 1 \<rparr>
   \<and> EmailOperations_getThread 0 reply19 session_nothing ''19''
       = Inr \<lparr> tr_messages = [message19], tr_threadId = ''19'', tr_messageCount = 1 \<rparr>"
proof -
  have p1: "ImapService_getMessage 0 reply_plain ''7'' = Inr (Some message_plain)"
    by code_simp
  have p2: "em_messageId message_plain = None \<and> em_inReplyTo message_plain = None
            \<and> em_references message_plain = None"
    by code_simp
  have p3: "ImapService_getThread 0 reply_plain session_x ''7''
       = Inr \<lparr> tr_messages = [message_plain], tr_threadId = ''7'', tr_messageCount = 1 \<rparr>"
    using getThread_singleton_fallback [OF p1, of session_x] p2 by blast
  have q1: "ImapService_getMessage 0 reply19 ''19'' = Inr (Some message19)"
    by code_simp
  have q2: "threadMessageIds message19 = [''<a@x>'', ''<b@x>'', ''<c@x>'']"
    by code_simp
  have q3: "search_ids (search_nothing field msgId) = []" for field msgId
    by (simp add: search_nothing_def)
  have q4: "\<exists>search fetch. session_nothing = SessionOpen search fetch
               \<and> (\<forall>field. \<forall>msgId \<in> set (threadMessageIds message19).
                     search_ids (search field msgId) = [])"
    unfolding session_nothing_def using q3 by blast
  have q5: "ImapService_getThread 0 reply19 session_nothing ''19''
       = Inr \<lparr> tr_messages = [message19], tr_threadId = ''19'', tr_messageCount = 1 \<rparr>
     \<and> EmailOperations_getThread 0 reply19 session_nothing ''19''
       = Inr \<lparr> tr_messages = [message19], tr_threadId = ''19'', tr_messageCount = 1 \<rparr>"
    using getThread_singleton_fallback [OF q1, of session_nothing] q4 by blast
  show ?thesis
    using p1 p2 p3 q1 q2 q5 by (simp add: q3)
qed


section \<open>A target that is not there\<close>

text \<open>
  Claim C4, as stated, asks for the empty thread also when the fetch fails. A fetch
  that fails makes \<open>getMessage\<close> reject, and \<open>getThread\<close> rejects with it.
\<close>

theorem getThread_fetch_error_counterexample:
  "ImapService_getThread 0 (FetchError ''NO'') session_x ''19''
     = Inl (Error ''Failed to get thread: Fetch error: NO'')
   \<and> ImapService_getThread 0 (FetchError ''NO'') session_x ''19''
     \<noteq> Inr \<lparr> tr_messages = [], tr_threadId = ''19'', tr_messageCount = 0 \<rparr>
   \<and> EmailOperations_getThread 0 (FetchError ''NO'') session_x ''19''
     = Inl (Error ''Failed to get thread: Failed to get thread: Fetch error: NO'')"
  by (simp add: ImapService_getThread_def ImapService_getMessage_def
        EmailOperations_getThread_def)

text \<open>
  Claim C4, amended. \<open>getMessage\<close> delivers no message exactly when the fetch ends
  without one; then \<open>getThread\<close> returns the thread with no messages, the given
  identifier and count 0. When the first \<open>getMessage\<close> rejects (connection, inbox,
  fetch or decoder), \<open>getThread\<close> rejects with the reason, prefixed.
\<close>

theorem getThread_target_absent:
  "(ImapService_getMessage now reply uid = Inr None \<longleftrightarrow> reply = FetchEmpty)
   \<and> (reply = FetchEmpty \<longrightarrow>
        ImapService_getThread now reply session uid
          = Inr \<lparr> tr_messages = [], tr_threadId = uid, tr_messageCount = 0 \<rparr>
        \<and> EmailOperations_getThread now reply session uid
          = Inr \<lparr> tr_messages = [], tr_threadId = uid, tr_messageCount = 0 \<rparr>)
   \<and> (ImapService_getMessage now reply uid = Inl e \<longrightarrow>
        ImapService_getThread now reply session uid
          = Inl (Error (''Failed to get thread: '' @ errmsg e))
        \<and> EmailOperations_getThread now reply session uid
          = Inl (Error (''Failed to get thread: Failed to get thread: '' @ errmsg e)))"
proof (intro conjI impI)
  show "ImapService_getMessage now reply uid = Inr None \<longleftrightarrow> reply = FetchEmpty"
    by (simp add: ImapService_getMessage_def split: fetch_reply.splits sum.splits)
next
  assume "reply = FetchEmpty"
  then show "ImapService_getThread now reply session uid
          = Inr \<lparr> tr_messages = [], tr_threadId = uid, tr_messageCount = 0 \<rparr>"
    by (simp add: ImapService_getThread_def ImapService_getMessage_def)
  then show "EmailOperations_getThread now reply session uid
          = Inr \<lparr> tr_messages = [], tr_threadId = uid, tr_messageCount = 0 \<rparr>"
    by (simp add: EmailOperations_getThread_def)
next
  assume "ImapService_getMessage now reply uid = Inl e"
  then show "ImapService_getThread now reply session uid
          = Inl (Error (''Failed to get thread: '' @ errmsg e))"
    by (simp add: ImapService_getThread_def)
  then show "EmailOperations_getThread now reply session uid
          = Inl (Error (''Failed to get thread: Failed to get thread: '' @ errmsg e))"
    by (simp add: EmailOperations_getThread_def)
qed

theorem getThread_target_absent_witness:
  "ImapService_getMessage 0 FetchEmpty ''404'' = Inr None
   \<and> ImapService_getThread 0 FetchEmpty session_x ''404''
       = Inr \<lparr> tr_messages = [], tr_threadId = ''404'', tr_messageCount = 0 \<rparr>
   \<and> EmailOperations_getThread 0 FetchEmpty session_x ''404''
       = Inr \<lparr> tr_messages = [], tr_threadId = ''404'', tr_messageCount = 0 \<rparr>
   \<and> ImapService_getMessage 0 (ConnectionError ''timeout'') ''19''
       = Inl (Error ''IMAP connection error: timeout'')
   \<and> ImapService_getThread 0 (ConnectionError ''timeout'') session_x ''19''
       = Inl (Error ''Failed to get thread: IMAP connection error: timeout'')"
proof -
  have a: "ImapService_getMessage 0 (ConnectionError ''timeout'') ''19''
       = Inl (Error ''IMAP connection error: timeout'')"
    by (simp add: ImapService_getMessage_def)
  show ?thesis
    using getThread_target_absent [of 0 FetchEmpty "''404''" session_x]
      getThread_target_absent [of 0 "ConnectionError ''timeout''" "''19''" session_x
         "Error ''IMAP connection error: timeout''"] a
    by simp
qed


section \<open>Lines, prefixes and tokens\<close>

lemma split_not_Nil: "split c s \<noteq> []"
  by (induction s) (auto split: list.splits)

lemma split_no_sep: "l \<in> set (split c s) \<Longrightarrow> c \<notin> set l"
  by (induction s arbitrary: l) (auto split: list.splits if_splits)

lemma split_single: "c \<notin> set x \<Longrightarrow> split c x = [x]"
  by (induction x) auto

lemma split_append_sep: "c \<notin> set x \<Longrightarrow> split c (x @ c # r) = x # split c r"
  by (induction x) auto

lemma join_split: "join [c] (split c s) = s"
proof (induction s)
  case Nil
  show ?case by simp
next
  case (Cons a s)
  obtain w ws where sp: "split c s = w # ws"
    using split_not_Nil [of c s] by (cases "split c s") auto
  with Cons show ?case
    by (cases ws) auto
qed

lemma split_join:
  assumes "xs \<noteq> []" "\<forall>x \<in> set xs. c \<notin> set x"
  shows "split c (join [c] xs) = xs"
  using assms
proof (induction "[c]" xs rule: join.induct)
  case 1
  then show ?case by simp
next
  case (2 x)
  then show ?case by (simp add: split_single)
next
  case (3 x y ys)
  then show ?case by (simp add: split_append_sep)
qed

lemma quotedBody_lines:
  "split newline (quotedBody body) = map (\<lambda>line. ''> '' @ line) (split newline body)"
proof -
  have "\<forall>x \<in> set (map (\<lambda>line. ''> '' @ line) (split newline body)). newline \<notin> set x"
    by (auto simp: newline_def dest: split_no_sep)
  moreover have "map (\<lambda>line. ''> '' @ line) (split newline body) \<noteq> []"
    by (simp add: split_not_Nil)
  ultimately show ?thesis
    unfolding quotedBody_def by (rule split_join [rotated])
qed

text \<open>\<open>startsWith\<close> is being a prefix; \<open>filter(Boolean)\<close> drops what is absent or empty.\<close>

lemma startsWith_iff: "startsWith s p \<longleftrightarrow> (\<exists>rest. s = p @ rest)"
proof
  assume "startsWith s p"
  then have "s = p @ drop (length p) s"
    unfolding startsWith_def by (metis append_take_drop_id)
  then show "\<exists>rest. s = p @ rest" ..
next
  assume "\<exists>rest. s = p @ rest"
  then show "startsWith s p"
    by (auto simp: startsWith_def)
qed

lemma filter_Boolean_Some: "filter_Boolean (map Some xs) = filter (\<lambda>s. s \<noteq> []) xs"
  by (induction xs) (auto simp: filter_Boolean_def)

lemma filter_Boolean_append:
  "filter_Boolean (xs @ ys) = filter_Boolean xs @ filter_Boolean ys"
  by (simp add: filter_Boolean_def)

lemma filter_Boolean_tokens:
  "filter_Boolean (map Some refs @ [mid])
     = filter (\<lambda>s. s \<noteq> []) (refs @ (case mid of None \<Rightarrow> [] | Some i \<Rightarrow> [i]))"
  by (cases mid) (simp_all add: filter_Boolean_append filter_Boolean_Some, simp_all add: filter_Boolean_def)


section \<open>Composing a reply\<close>

lemma getMessageHeaders_found:
  assumes "ImapService_getMessage now reply uid = Inr (Some orig)"
  shows "ImapService_getMessageHeaders now reply uid =
     Inr (Some \<lparr> mh_from = em_from orig,
                 mh_subject = em_subject orig,
                 mh_messageId = em_messageId orig,
                 mh_references =
                   filter (\<lambda>s. s \<noteq> [])
                     ((case em_references orig of None \<Rightarrow> [] | Some refs \<Rightarrow> refs)
                      @ (case em_messageId orig of None \<Rightarrow> [] | Some i \<Rightarrow> [i])),
                 mh_date = em_date orig,
                 mh_body = or_else (em_body orig) [] \<rparr>)"
  using assms by (simp add: ImapService_getMessageHeaders_def filter_Boolean_tokens)

text \<open>What a reply to a fetched message hands to the transporter.\<close>

lemma replyToMessage_no_address:
  assumes "ImapService_getMessage now reply (rm_id params) = Inr (Some orig)"
    and "\<not> includesChar (replyTo (em_from orig)) (CHR ''@'')"
  shows "EmailOperations_replyToMessage now reply toLocaleString user t params
     = (Inr (failure ''Could not determine reply address from original message''), t)"
  using assms(2)
  by (simp add: EmailOperations_replyToMessage_def replyToMessage_try_def
        getMessageHeaders_found [OF assms(1)])

lemma mailOptions_fields:
  "mo_from (mailOptions user p) = user
   \<and> mo_to (mailOptions user p) = rp_to p
   \<and> mo_subject (mailOptions user p)
       = (if startsWith (rp_subject p) ''Re:'' then rp_subject p else ''Re: '' @ rp_subject p)
   \<and> mo_text (mailOptions user p) = rp_body p
   \<and> mo_cc (mailOptions user p) = rp_cc p
   \<and> mo_inReplyTo (mailOptions user p) = (if truthy (rp_inReplyTo p) then rp_inReplyTo p else None)
   \<and> mo_references (mailOptions user p)
       = (case rp_references p of None \<Rightarrow> None
          | Some refs \<Rightarrow> if refs = [] then None else Some (join '' '' refs))"
  by (simp add: mailOptions_def Let_def split: option.splits)

lemma sendReply_valid:
  assumes "includesChar (rp_to p) (CHR ''@'')"
  shows "snd (sendReply user p t) = t \<lparr> tp_received := tp_received t @ [mailOptions user p] \<rparr>
     \<and> fst (sendReply user p t)
         = (case tp_answer t (mailOptions user p) of
              Inl e \<Rightarrow> failure (''Failed to send reply: '' @ errmsg e)
            | Inr info_messageId \<Rightarrow>
                \<lparr> sr_messageId = info_messageId, sr_success = True,
                  sr_message = ''Reply sent successfully'' \<rparr>)"
proof -
  have "rp_to p \<noteq> []"
    using assms by (auto simp: includesChar_def)
  with assms show ?thesis
    by (simp add: sendReply_def sendMail_def split: sum.splits)
qed

lemma replyToMessage_found:
  assumes "ImapService_getMessage now reply (rm_id params) = Inr (Some orig)"
    and "includesChar (replyTo (em_from orig)) (CHR ''@'')"
  shows "\<exists>h. ImapService_getMessageHeaders now reply (rm_id params) = Inr (Some h)
     \<and> EmailOperations_replyToMessage now reply toLocaleString user t params
       = (Inr (fst (sendReply user
                   \<lparr> rp_to = replyTo (em_from orig),
                     rp_subject = em_subject orig,
                     rp_body = replyBody toLocaleString params h,
                     rp_inReplyTo = em_messageId orig,
                     rp_references = Some (mh_references h),
                     rp_cc = None \<rparr> t)),
          snd (sendReply user
                   \<lparr> rp_to = replyTo (em_from orig),
                     rp_subject = em_subject orig,
                     rp_body = replyBody toLocaleString params h,
                     rp_inReplyTo = em_messageId orig,
                     rp_references = Some (mh_references h),
                     rp_cc = None \<rparr> t))"
proof -
  have ne: "replyTo (em_from orig) \<noteq> []"
    using assms(2) by (auto simp: includesChar_def)
  show ?thesis
    using assms(2) ne
    by (simp add: EmailOperations_replyToMessage_def replyToMessage_try_def
          getMessageHeaders_found [OF assms(1)] split: prod.splits)
qed

lemma replyToMessage_sent:
  assumes "ImapService_getMessage now reply (rm_id params) = Inr (Some orig)"
    and "includesChar (replyTo (em_from orig)) (CHR ''@'')"
  shows "\<exists>m. snd (EmailOperations_replyToMessage now reply toLocaleString user t params)
           = t \<lparr> tp_received := tp_received t @ [m] \<rparr>
     \<and> fst (EmailOperations_replyToMessage now reply toLocaleString user t params)
         = Inr (case tp_answer t m of
                  Inl e \<Rightarrow> failure (''Failed to send reply: '' @ errmsg e)
                | Inr info_messageId \<Rightarrow>
                    \<lparr> sr_messageId = info_messageId, sr_success = True,
                      sr_message = ''Reply sent successfully'' \<rparr>)
     \<and> mo_from m = user
     \<and> mo_to m = replyTo (em_from orig)
     \<and> mo_subject m = (if startsWith (em_subject orig) ''Re:'' then em_subject orig
                        else ''Re: '' @ em_subject orig)
     \<and> mo_text m =
         (if rm_includeQuote params \<and> or_else (em_body orig) [] \<noteq> []
            then rm_body params @ [newline, newline] @ ''---'' @ [newline] @ ''On ''
                 @ toLocaleString (em_date orig) @ '', '' @ em_from orig
                 @ '' wrote:'' @ [newline] @ quotedBody (or_else (em_body orig) [])
          else rm_body params)
     \<and> mo_cc m = None
     \<and> mo_inReplyTo m = (if truthy (em_messageId orig) then em_messageId orig else None)
     \<and> mo_references m =
         (if filter (\<lambda>s. s \<noteq> [])
               ((case em_references orig of None \<Rightarrow> [] | Some refs \<Rightarrow> refs)
                @ (case em_messageId orig of None \<Rightarrow> [] | Some i \<Rightarrow> [i])) = []
            then None
          else Some (join '' ''
                 (filter (\<lambda>s. s \<noteq> [])
                    ((case em_references orig of None \<Rightarrow> [] | Some refs \<Rightarrow> refs)
                     @ (case em_messageId orig of None \<Rightarrow> [] | Some i \<Rightarrow> [i])))))"
proof -
  from replyToMessage_found [OF assms, of toLocaleString user t]
  obtain h where H: "ImapService_getMessageHeaders now reply (rm_id params) = Inr (Some h)"
    and R: "EmailOperations_replyToMessage now reply toLocaleString user t params
       = (Inr (fst (sendReply user
                   \<lparr> rp_to = replyTo (em_from orig),
                     rp_subject = em_subject orig,
                     rp_body = replyBody toLocaleString params h,
                     rp_inReplyTo = em_messageId orig,
                     rp_references = Some (mh_references h),
                     rp_cc = None \<rparr> t)),
          snd (sendReply user
                   \<lparr> rp_to = replyTo (em_from orig),
                     rp_subject = em_subject orig,
                     rp_body = replyBody toLocaleString params h,
                     rp_inReplyTo = em_messageId orig,
                     rp_references = Some (mh_references h),
                     rp_cc = None \<rparr> t))"
    by blast
  define p where "p = \<lparr> rp_to = replyTo (em_from orig),
                     rp_subject = em_subject orig,
                     rp_body = replyBody toLocaleString params h,
                     rp_inReplyTo = em_messageId orig,
                     rp_references = Some (mh_references h),
                     rp_cc = None \<rparr>"
  have hv: "mh_from h = em_from orig" "mh_date h = em_date orig"
    "mh_body h = or_else (em_body orig) []"
    "mh_references h = filter (\<lambda>s. s \<noteq> [])
                     ((case em_references orig of None \<Rightarrow> [] | Some refs \<Rightarrow> refs)
                      @ (case em_messageId orig of None \<Rightarrow> [] | Some i \<Rightarrow> [i]))"
    using H getMessageHeaders_found [OF assms(1)] by auto
  have pv: "rp_to p = replyTo (em_from orig)" "rp_subject p = em_subject orig"
    "rp_body p = replyBody toLocaleString params h" "rp_inReplyTo p = em_messageId orig"
    "rp_references p = Some (mh_references h)" "rp_cc p = None"
    by (simp_all add: p_def)
  have V: "includesChar (rp_to p) (CHR ''@'')"
    using assms(2) by (simp add: pv)
  note S = sendReply_valid [OF V, of user t]
  note F = mailOptions_fields [of user p]
  have R': "EmailOperations_replyToMessage now reply toLocaleString user t params
       = (Inr (fst (sendReply user p t)), snd (sendReply user p t))"
    using R unfolding p_def .
  show ?thesis
  proof (intro exI [of _ "mailOptions user p"] conjI)
    show "snd (EmailOperations_replyToMessage now reply toLocaleString user t params)
        = t \<lparr> tp_received := tp_received t @ [mailOptions user p] \<rparr>"
      using R' S by simp
    show "fst (EmailOperations_replyToMessage now reply toLocaleString user t params)
         = Inr (case tp_answer t (mailOptions user p) of
                  Inl e \<Rightarrow> failure (''Failed to send reply: '' @ errmsg e)
                | Inr info_messageId \<Rightarrow>
                    \<lparr> sr_messageId = info_messageId, sr_success = True,
                      sr_message = ''Reply sent successfully'' \<rparr>)"
      using R' S by simp
    show "mo_from (mailOptions user p) = user"
      using F by simp
    show "mo_to (mailOptions user p) = replyTo (em_from orig)"
      using F by (simp add: pv)
    show "mo_subject (mailOptions user p)
        = (if startsWith (em_subject orig) ''Re:'' then em_subject orig
           else ''Re: '' @ em_subject orig)"
      using F by (simp add: pv)
    show "mo_text (mailOptions user p) =
         (if rm_includeQuote params \<and> or_else (em_body orig) [] \<noteq> []
            then rm_body params @ [newline, newline] @ ''---'' @ [newline] @ ''On ''
                 @ toLocaleString (em_date orig) @ '', '' @ em_from orig
                 @ '' wrote:'' @ [newline] @ quotedBody (or_else (em_body orig) [])
          else rm_body params)"
      using F by (simp add: pv replyBody_def hv)
    show "mo_cc (mailOptions user p) = None"
      using F by (simp add: pv)
    show "mo_inReplyTo (mailOptions user p)
        = (if truthy (em_messageId orig) then em_messageId orig else None)"
      using F by (simp add: pv)
    show "mo_references (mailOptions user p) =
         (if filter (\<lambda>s. s \<noteq> [])
               ((case em_references orig of None \<Rightarrow> [] | Some refs \<Rightarrow> refs)
                @ (case em_messageId orig of None \<Rightarrow> [] | Some i \<Rightarrow> [i])) = []
            then None
          else Some (join '' ''
                 (filter (\<lambda>s. s \<noteq> [])
                    ((case em_references orig of None \<Rightarrow> [] | Some refs \<Rightarrow> refs)
                     @ (case em_messageId orig of None \<Rightarrow> [] | Some i \<Rightarrow> [i])))))"
      using F by (simp add: pv hv)
  qed
qed


section \<open>Threading headers of a reply\<close>

text \<open>
  Claim C1. For a target message that exists and whose From header yields a reply
  address, \<open>replyToMessage\<close> hands exactly one mail to the transporter, and what it
  returns is the answer of the transporter to that mail: the message id on success,
  the failure otherwise. That mail carries as References the References list of the
  target with the Message-ID of the target appended, entries that are absent or empty
  left out, joined by single blanks (no header when nothing is left), and as
  In-Reply-To the Message-ID of the target (none when it is absent or empty). For a
  target whose References hold no empty entry and whose Message-ID is not empty, that
  is the list followed by the Message-ID, and the Message-ID. When the From header
  yields no reply address the transporter is handed nothing.
\<close>

theorem reply_threading_headers:
  assumes "ImapService_getMessage now reply (rm_id params) = Inr (Some orig)"
  shows "(includesChar (replyTo (em_from orig)) (CHR ''@'') \<longrightarrow>
           (\<exists>m. snd (EmailOperations_replyToMessage now reply toLocaleString user t params)
                  = t \<lparr> tp_received := tp_received t @ [m] \<rparr>
              \<and> fst (EmailOperations_replyToMessage now reply toLocaleString user t params)
                  = Inr (case tp_answer t m of
                           Inl e \<Rightarrow> failure (''Failed to send reply: '' @ errmsg e)
                         | Inr info_messageId \<Rightarrow>
                             \<lparr> sr_messageId = info_messageId, sr_success = True,
                               sr_message = ''Reply sent successfully'' \<rparr>)
              \<and> mo_references m =
                  (if filter (\<lambda>s. s \<noteq> [])
                        ((case em_references orig of None \<Rightarrow> [] | Some refs \<Rightarrow> refs)
                         @ (case em_messageId orig of None \<Rightarrow> [] | Some i \<Rightarrow> [i])) = []
                     then None
                   else Some (join '' ''
                          (filter (\<lambda>s. s \<noteq> [])
                             ((case em_references orig of None \<Rightarrow> [] | Some refs \<Rightarrow> refs)
                              @ (case em_messageId orig of None \<Rightarrow> [] | Some i \<Rightarrow> [i])))))
              \<and> mo_inReplyTo m =
                  (case em_messageId orig of None \<Rightarrow> None
                   | Some i \<Rightarrow> if i = [] then None else Some i)
              \<and> (\<forall>refs i. em_references orig = Some refs \<and> [] \<notin> set refs
                           \<and> em_messageId orig = Some i \<and> i \<noteq> []
                     \<longrightarrow> mo_references m = Some (join '' '' (refs @ [i]))
                         \<and> mo_inReplyTo m = Some i)))
       \<and> (\<not> includesChar (replyTo (em_from orig)) (CHR ''@'') \<longrightarrow>
            snd (EmailOperations_replyToMessage now reply toLocaleString user t params) = t)"
proof (intro conjI impI)
  assume at: "includesChar (replyTo (em_from orig)) (CHR ''@'')"
  from replyToMessage_sent [OF assms at, of toLocaleString user t]
  obtain m where S: "snd (EmailOperations_replyToMessage now reply toLocaleString user t params)
                  = t \<lparr> tp_received := tp_received t @ [m] \<rparr>"
    and A: "fst (EmailOperations_replyToMessage now reply toLocaleString user t params)
                  = Inr (case tp_answer t m of
                           Inl e \<Rightarrow> failure (''Failed to send reply: '' @ errmsg e)
                         | Inr info_messageId \<Rightarrow>
                             \<lparr> sr_messageId = info_messageId, sr_success = True,
                               sr_message = ''Reply sent successfully'' \<rparr>)"
    and refs: "mo_references m =
           (if filter (\<lambda>s. s \<noteq> [])
                 ((case em_references orig of None \<Rightarrow> [] | Some refs \<Rightarrow> refs)
                  @ (case em_messageId orig of None \<Rightarrow> [] | Some i \<Rightarrow> [i])) = []
              then None
            else Some (join '' ''
                   (filter (\<lambda>s. s \<noteq> [])
                      ((case em_references orig of None \<Rightarrow> [] | Some refs \<Rightarrow> refs)
                       @ (case em_messageId orig of None \<Rightarrow> [] | Some i \<Rightarrow> [i])))))"
    and irt: "mo_inReplyTo m = (if truthy (em_messageId orig) then em_messageId orig else None)"
    by blast
  have irt': "mo_inReplyTo m =
           (case em_messageId orig of None \<Rightarrow> None | Some i \<Rightarrow> if i = [] then None else Some i)"
    using irt by (cases "em_messageId orig") auto
  have clean: "mo_references m = Some (join '' '' (refs @ [i])) \<and> mo_inReplyTo m = Some i"
    if "em_references orig = Some refs \<and> [] \<notin> set refs \<and> em_messageId orig = Some i \<and> i \<noteq> []"
    for refs i
  proof -
    from that have "filter (\<lambda>s. s \<noteq> []) refs = refs"
      by (auto simp: filter_id_conv)
    with that refs irt' show ?thesis
      by simp
  qed
  show "\<exists>m. snd (EmailOperations_replyToMessage now reply toLocaleString user t params)
                  = t \<lparr> tp_received := tp_received t @ [m] \<rparr>
              \<and> fst (EmailOperations_replyToMessage now reply toLocaleString user t params)
                  = Inr (case tp_answer t m of
                           Inl e \<Rightarrow> failure (''Failed to send reply: '' @ errmsg e)
                         | Inr info_messageId \<Rightarrow>
                             \<lparr> sr_messageId = info_messageId, sr_success = True,
                               sr_message = ''Reply sent successfully'' \<rparr>)
              \<and> mo_references m =
                  (if filter (\<lambda>s. s \<noteq> [])
                        ((case em_references orig of None \<Rightarrow> [] | Some refs \<Rightarrow> refs)
                         @ (case em_messageId orig of None \<Rightarrow> [] | Some i \<Rightarrow> [i])) = []
                     then None
                   else Some (join '' ''
                          (filter (\<lambda>s. s \<noteq> [])
                             ((case em_references orig of None \<Rightarrow> [] | Some refs \<Rightarrow> refs)
                              @ (case em_messageId orig of None \<Rightarrow> [] | Some i \<Rightarrow> [i])))))
              \<and> mo_inReplyTo m =
                  (case em_messageId orig of None \<Rightarrow> None
                   | Some i \<Rightarrow> if i = [] then None else Some i)
              \<and> (\<forall>refs i. em_references orig = Some refs \<and> [] \<notin> set refs
                           \<and> em_messageId orig = Some i \<and> i \<noteq> []
                     \<longrightarrow> mo_references m = Some (join '' '' (refs @ [i]))
                         \<and> mo_inReplyTo m = Some i)"
    using S A refs irt' clean by (intro exI [of _ m] conjI allI impI) simp_all
next
  assume "\<not> includesChar (replyTo (em_from orig)) (CHR ''@'')"
  from replyToMessage_no_address [OF assms this, of toLocaleString user t]
  show "snd (EmailOperations_replyToMessage now reply toLocaleString user t params) = t"
    by simp
qed

theorem reply_threading_headers_witness:
  "ImapService_getMessage 0 reply19 (rm_id thanks) = Inr (Some message19)
   \<and> includesChar (replyTo (em_from message19)) (CHR ''@'')
   \<and> em_references message19 = Some [''<b@x>'', ''<c@x>'']
   \<and> em_messageId message19 = Some ''<a@x>''
   \<and> tp_received (snd (EmailOperations_replyToMessage 0 reply19 locale_date account
                         transporter_ok thanks))
       = [hd sent_thanks]
   \<and> fst (EmailOperations_replyToMessage 0 reply19 locale_date account transporter_ok thanks)
       = Inr \<lparr> sr_messageId = ''<reply@smtp>'', sr_success = True,
               sr_message = ''Reply sent successfully'' \<rparr>
   \<and> mo_references (hd sent_thanks) = Some ''<b@x> <c@x> <a@x>''
   \<and> mo_inReplyTo (hd sent_thanks) = Some ''<a@x>''
   \<and> ImapService_getMessage 0 reply_plain (rm_id thanks_plain) = Inr (Some message_plain)
   \<and> \<not> includesChar (replyTo (em_from message_plain)) (CHR ''@'')
   \<and> snd (EmailOperations_replyToMessage 0 reply_plain locale_date account transporter_ok
            thanks_plain)
       = transporter_ok"
proof -
  have h1: "ImapService_getMessage 0 reply19 (rm_id thanks) = Inr (Some message19)"
    by code_simp
  have h2: "includesChar (replyTo (em_from message19)) (CHR ''@'')"
    by code_simp
  have e1: "em_references message19 = Some [''<b@x>'', ''<c@x>'']"
    by code_simp
  have e2: "em_messageId message19 = Some ''<a@x>''"
    by code_simp
  from reply_threading_headers [OF h1, of locale_date account transporter_ok,
      THEN conjunct1, rule_format, OF h2]
  obtain m where S: "snd (EmailOperations_replyToMessage 0 reply19 locale_date account
                           transporter_ok thanks)
                  = transporter_ok \<lparr> tp_received := tp_received transporter_ok @ [m] \<rparr>"
    and A: "fst (EmailOperations_replyToMessage 0 reply19 locale_date account transporter_ok thanks)
                  = Inr (case tp_answer transporter_ok m of
                           Inl e \<Rightarrow> failure (''Failed to send reply: '' @ errmsg e)
                         | Inr info_messageId \<Rightarrow>
                             \<lparr> sr_messageId = info_messageId, sr_success = True,
                               sr_message = ''Reply sent successfully'' \<rparr>)"
    and C: "\<forall>refs i. em_references message19 = Some refs \<and> [] \<notin> set refs
                           \<and> em_messageId message19 = Some i \<and> i \<noteq> []
                     \<longrightarrow> mo_references m = Some (join '' '' (refs @ [i]))
                         \<and> mo_inReplyTo m = Some i"
    by blast
  have r: "tp_received (snd (EmailOperations_replyToMessage 0 reply19 locale_date account
                           transporter_ok thanks)) = [m]"
    unfolding S by (simp add: transporter_ok_def)
  then have m: "hd sent_thanks = m"
    by (simp add: sent_thanks_def)
  have a: "fst (EmailOperations_replyToMessage 0 reply19 locale_date account transporter_ok thanks)
       = Inr \<lparr> sr_messageId = ''<reply@smtp>'', sr_success = True,
               sr_message = ''Reply sent successfully'' \<rparr>"
    unfolding A by (simp add: transporter_ok_def accepted_def)
  from C [rule_format, of "[''<b@x>'', ''<c@x>'']" "''<a@x>''"] e1 e2
  have c: "mo_references m = Some (join '' '' ([''<b@x>'', ''<c@x>''] @ [''<a@x>'']))
         \<and> mo_inReplyTo m = Some ''<a@x>''"
    by simp
  have j: "join '' '' ([''<b@x>'', ''<c@x>''] @ [''<a@x>'']) = ''<b@x> <c@x> <a@x>''"
    by code_simp
  have k1: "ImapService_getMessage 0 reply_plain (rm_id thanks_plain) = Inr (Some message_plain)"
    by code_simp
  have k2: "\<not> includesChar (replyTo (em_from message_plain)) (CHR ''@'')"
    by code_simp
  note k3 = reply_threading_headers [OF k1, of locale_date account transporter_ok,
      THEN conjunct2, rule_format, OF k2]
  show ?thesis
    using h1 h2 e1 e2 r m a c j k1 k2 k3 by simp
qed


section \<open>Subject of a reply\<close>

text \<open>
  Claim C5. For a target message that exists and whose From header yields a reply
  address, \<open>replyToMessage\<close> hands exactly one mail to the transporter and returns
  the answer of the transporter to it. The subject of that mail is the subject of the
  target message, unchanged, when that subject begins with the three characters \<open>Re:\<close>
  in exactly this spelling, and otherwise \<open>Re: \<close> followed by the subject of the
  target: \<open>Meeting\<close> becomes \<open>Re: Meeting\<close>, and \<open>Re: Meeting\<close> stays. Without a
  reply address the transporter is handed nothing.
\<close>

theorem reply_subject_prefix:
  assumes "ImapService_getMessage now reply (rm_id params) = Inr (Some orig)"
  shows "(includesChar (replyTo (em_from orig)) (CHR ''@'') \<longrightarrow>
           (\<exists>m. snd (EmailOperations_replyToMessage now reply toLocaleString user t params)
                  = t \<lparr> tp_received := tp_received t @ [m] \<rparr>
              \<and> fst (EmailOperations_replyToMessage now reply toLocaleString user t params)
                  = Inr (case tp_answer t m of
                           Inl e \<Rightarrow> failure (''Failed to send reply: '' @ errmsg e)
                         | Inr info_messageId \<Rightarrow>
                             \<lparr> sr_messageId = info_messageId, sr_success = True,
                               sr_message = ''Reply sent successfully'' \<rparr>)
              \<and> ((\<exists>rest. em_subject orig = ''Re:'' @ rest)
                    \<longrightarrow> mo_subject m = em_subject orig)
              \<and> ((\<nexists>rest. em_subject orig = ''Re:'' @ rest)
                    \<longrightarrow> mo_subject m = ''Re: '' @ em_subject orig)))
       \<and> (\<not> includesChar (replyTo (em_from orig)) (CHR ''@'') \<longrightarrow>
            snd (EmailOperations_replyToMessage now reply toLocaleString user t params) = t)"
proof (intro conjI impI)
  assume at: "includesChar (replyTo (em_from orig)) (CHR ''@'')"
  from replyToMessage_sent [OF assms at, of toLocaleString user t]
  obtain m where S: "snd (EmailOperations_replyToMessage now reply toLocaleString user t params)
                  = t \<lparr> tp_received := tp_received t @ [m] \<rparr>"
    and A: "fst (EmailOperations_replyToMessage now reply toLocaleString user t params)
                  = Inr (case tp_answer t m of
                           Inl e \<Rightarrow> failure (''Failed to send reply: '' @ errmsg e)
                         | Inr info_messageId \<Rightarrow>
                             \<lparr> sr_messageId = info_messageId, sr_success = True,
                               sr_message = ''Reply sent successfully'' \<rparr>)"
    and subj: "mo_subject m = (if startsWith (em_subject orig) ''Re:'' then em_subject orig
                        else ''Re: '' @ em_subject orig)"
    by blast
  have s1: "(\<exists>rest. em_subject orig = ''Re:'' @ rest) \<longrightarrow> mo_subject m = em_subject orig"
    using subj unfolding startsWith_iff by simp
  have s2: "(\<nexists>rest. em_subject orig = ''Re:'' @ rest)
      \<longrightarrow> mo_subject m = ''Re: '' @ em_subject orig"
    using subj unfolding startsWith_iff by simp
  show "\<exists>m. snd (EmailOperations_replyToMessage now reply toLocaleString user t params)
                  = t \<lparr> tp_received := tp_received t @ [m] \<rparr>
              \<and> fst (EmailOperations_replyToMessage now reply toLocaleString user t params)
                  = Inr (case tp_answer t m of
                           Inl e \<Rightarrow> failure (''Failed to send reply: '' @ errmsg e)
                         | Inr info_messageId \<Rightarrow>
                             \<lparr> sr_messageId = info_messageId, sr_success = True,
                               sr_message = ''Reply sent successfully'' \<rparr>)
              \<and> ((\<exists>rest. em_subject orig = ''Re:'' @ rest)
                    \<longrightarrow> mo_subject m = em_subject orig)
              \<and> ((\<nexists>rest. em_subject orig = ''Re:'' @ rest)
                    \<longrightarrow> mo_subject m = ''Re: '' @ em_subject orig)"
    using S A s1 s2 by (intro exI [of _ m] conjI)
next
  assume "\<not> includesChar (replyTo (em_from orig)) (CHR ''@'')"
  from replyToMessage_no_address [OF assms this, of toLocaleString user t]
  show "snd (EmailOperations_replyToMessage now reply toLocaleString user t params) = t"
    by simp
qed

theorem reply_subject_prefix_witness:
  "ImapService_getMessage 0 reply19 (rm_id thanks) = Inr (Some message19)
   \<and> includesChar (replyTo (em_from message19)) (CHR ''@'')
   \<and> em_subject message19 = ''Meeting''
   \<and> tp_received (snd (EmailOperations_replyToMessage 0 reply19 locale_date account
                         transporter_ok thanks))
       = [hd sent_thanks]
   \<and> fst (EmailOperations_replyToMessage 0 reply19 locale_date account transporter_ok thanks)
       = Inr \<lparr> sr_messageId = ''<reply@smtp>'', sr_success = True,
               sr_message = ''Reply sent successfully'' \<rparr>
   \<and> mo_subject (hd sent_thanks) = ''Re: Meeting''
   \<and> ImapService_getMessage 0 reply18 (rm_id thanks18) = Inr (Some message18)
   \<and> includesChar (replyTo (em_from message18)) (CHR ''@'')
   \<and> em_subject message18 = ''Re: Meeting''
   \<and> tp_received (snd (EmailOperations_replyToMessage 0 reply18 locale_date account
                         transporter_ok thanks18))
       = [hd sent_thanks18]
   \<and> mo_subject (hd sent_thanks18) = ''Re: Meeting''
   \<and> ImapService_getMessage 0 reply_plain (rm_id thanks_plain) = Inr (Some message_plain)
   \<and> \<not> includesChar (replyTo (em_from message_plain)) (CHR ''@'')
   \<and> snd (EmailOperations_replyToMessage 0 reply_plain locale_date account transporter_ok
            thanks_plain)
       = transporter_ok"
proof -
  have h1: "ImapService_getMessage 0 reply19 (rm_id thanks) = Inr (Some message19)"
    by code_simp
  have h2: "includesChar (replyTo (em_from message19)) (CHR ''@'')"
    by code_simp
  have e1: "em_subject message19 = ''Meeting''"
    by code_simp
  have n1: "\<nexists>rest. em_subject message19 = ''Re:'' @ rest"
    unfolding e1 by simp
  from reply_subject_prefix [OF h1, of locale_date account transporter_ok,
      THEN conjunct1, rule_format, OF h2]
  obtain m where S: "snd (EmailOperations_replyToMessage 0 reply19 locale_date account
                           transporter_ok thanks)
                  = transporter_ok \<lparr> tp_received := tp_received transporter_ok @ [m] \<rparr>"
    and A: "fst (EmailOperations_replyToMessage 0 reply19 locale_date account transporter_ok thanks)
                  = Inr (case tp_answer transporter_ok m of
                           Inl e \<Rightarrow> failure (''Failed to send reply: '' @ errmsg e)
                         | Inr info_messageId \<Rightarrow>
                             \<lparr> sr_messageId = info_messageId, sr_success = True,
                               sr_message = ''Reply sent successfully'' \<rparr>)"
    and C: "(\<nexists>rest. em_subject message19 = ''Re:'' @ rest)
                    \<longrightarrow> mo_subject m = ''Re: '' @ em_subject message19"
    by blast
  have r: "tp_received (snd (EmailOperations_replyToMessage 0 reply19 locale_date account
                           transporter_ok thanks)) = [m]"
    unfolding S by (simp add: transporter_ok_def)
  then have m: "hd sent_thanks = m"
    by (simp add: sent_thanks_def)
  have a: "fst (EmailOperations_replyToMessage 0 reply19 locale_date account transporter_ok thanks)
       = Inr \<lparr> sr_messageId = ''<reply@smtp>'', sr_success = True,
               sr_message = ''Reply sent successfully'' \<rparr>"
    unfolding A by (simp add: transporter_ok_def accepted_def)
  have c: "mo_subject m = ''Re: Meeting''"
    using C n1 e1 by simp
  have g1: "ImapService_getMessage 0 reply18 (rm_id thanks18) = Inr (Some message18)"
    by code_simp
  have g2: "includesChar (replyTo (em_from message18)) (CHR ''@'')"
    by code_simp
  have e2: "em_subject message18 = ''Re: Meeting''"
    by code_simp
  have n2: "\<exists>rest. em_subject message18 = ''Re:'' @ rest"
    unfolding e2 by simp
  from reply_subject_prefix [OF g1, of locale_date account transporter_ok,
      THEN conjunct1, rule_format, OF g2]
  obtain m' where S': "snd (EmailOperations_replyToMessage 0 reply18 locale_date account
                           transporter_ok thanks18)
                  = transporter_ok \<lparr> tp_received := tp_received transporter_ok @ [m'] \<rparr>"
    and C': "(\<exists>rest. em_subject message18 = ''Re:'' @ rest)
                    \<longrightarrow> mo_subject m' = em_subject message18"
    by blast
  have r': "tp_received (snd (EmailOperations_replyToMessage 0 reply18 locale_date account
                           transporter_ok thanks18)) = [m']"
    unfolding S' by (simp add: transporter_ok_def)
  then have m': "hd sent_thanks18 = m'"
    by (simp add: sent_thanks18_def)
  have c': "mo_subject m' = ''Re: Meeting''"
    using C' n2 e2 by simp
  have k1: "ImapService_getMessage 0 reply_plain (rm_id thanks_plain) = Inr (Some message_plain)"
    by code_simp
  have k2: "\<not> includesChar (replyTo (em_from message_plain)) (CHR ''@'')"
    by code_simp
  note k3 = reply_subject_prefix [OF k1, of locale_date account transporter_ok,
      THEN conjunct2, rule_format, OF k2]
  show ?thesis
    using h1 h2 e1 r m a c g1 g2 e2 r' m' c' k1 k2 k3 by simp
qed


section \<open>Body of a reply\<close>

text \<open>
  Claim C6. For a target message that exists and whose From header yields a reply
  address, \<open>replyToMessage\<close> hands exactly one mail to the transporter and returns
  the answer of the transporter to it. When the quote is asked for and the target
  message has a body that is not empty, the text of that mail is the body given by
  the caller, then two line feeds, \<open>---\<close>, a line feed, \<open>On\<close>, the date of the
  target in the rendering of the locale, a comma, the From header of the target,
  \<open>wrote:\<close> and a line feed, then the quoted body; the lines of the quoted body are
  the lines of the body of the target, each with \<open>> \<close> in front, so that \<open>line1\<close>,
  \<open>line2\<close> is quoted as \<open>> line1\<close>, \<open>> line2\<close>. When the quote is not asked for, the
  text is the body given by the caller and nothing else. Without a reply address the
  transporter is handed nothing.
\<close>

theorem reply_quoted_body:
  assumes "ImapService_getMessage now reply (rm_id params) = Inr (Some orig)"
  shows "(includesChar (replyTo (em_from orig)) (CHR ''@'') \<longrightarrow>
           (\<exists>m. snd (EmailOperations_replyToMessage now reply toLocaleString user t params)
                  = t \<lparr> tp_received := tp_received t @ [m] \<rparr>
              \<and> fst (EmailOperations_replyToMessage now reply toLocaleString user t params)
                  = Inr (case tp_answer t m of
                           Inl e \<Rightarrow> failure (''Failed to send reply: '' @ errmsg e)
                         | Inr info_messageId \<Rightarrow>
                             \<lparr> sr_messageId = info_messageId, sr_success = True,
                               sr_message = ''Reply sent successfully'' \<rparr>)
              \<and> (\<forall>body. rm_includeQuote params \<and> em_body orig = Some body \<and> body \<noteq> [] \<longrightarrow>
                    mo_text m = rm_body params @ [newline, newline] @ ''---'' @ [newline]
                                @ ''On '' @ toLocaleString (em_date orig) @ '', ''
                                @ em_from orig @ '' wrote:'' @ [newline] @ quotedBody body
                    \<and> split newline (quotedBody body)
                        = map (\<lambda>line. ''> '' @ line) (split newline body)
                    \<and> join [newline] (split newline body) = body)
              \<and> (\<not> rm_includeQuote params \<longrightarrow> mo_text m = rm_body params)))
       \<and> (\<not> includesChar (replyTo (em_from orig)) (CHR ''@'') \<longrightarrow>
            snd (EmailOperations_replyToMessage now reply toLocaleString user t params) = t)"
proof (intro conjI impI)
  assume at: "includesChar (replyTo (em_from orig)) (CHR ''@'')"
  from replyToMessage_sent [OF assms at, of toLocaleString user t]
  obtain m where S: "snd (EmailOperations_replyToMessage now reply toLocaleString user t params)
                  = t \<lparr> tp_received := tp_received t @ [m] \<rparr>"
    and A: "fst (EmailOperations_replyToMessage now reply toLocaleString user t params)
                  = Inr (case tp_answer t m of
                           Inl e \<Rightarrow> failure (''Failed to send reply: '' @ errmsg e)
                         | Inr info_messageId \<Rightarrow>
                             \<lparr> sr_messageId = info_messageId, sr_success = True,
                               sr_message = ''Reply sent successfully'' \<rparr>)"
    and sent_text: "mo_text m =
         (if rm_includeQuote params \<and> or_else (em_body orig) [] \<noteq> []
            then rm_body params @ [newline, newline] @ ''---'' @ [newline] @ ''On ''
                 @ toLocaleString (em_date orig) @ '', '' @ em_from orig
                 @ '' wrote:'' @ [newline] @ quotedBody (or_else (em_body orig) [])
          else rm_body params)"
    by blast
  have b: "or_else (em_body orig) [] = body" if "em_body orig = Some body" for body
    using that by (simp add: or_else_def)
  have q: "\<forall>body. rm_includeQuote params \<and> em_body orig = Some body \<and> body \<noteq> [] \<longrightarrow>
                    mo_text m = rm_body params @ [newline, newline] @ ''---'' @ [newline]
                                @ ''On '' @ toLocaleString (em_date orig) @ '', ''
                                @ em_from orig @ '' wrote:'' @ [newline] @ quotedBody body
                    \<and> split newline (quotedBody body)
                        = map (\<lambda>line. ''> '' @ line) (split newline body)
                    \<and> join [newline] (split newline body) = body"
    using sent_text b by (auto simp: quotedBody_lines join_split)
  have n: "\<not> rm_includeQuote params \<longrightarrow> mo_text m = rm_body params"
    using sent_text by simp
  show "\<exists>m. snd (EmailOperations_replyToMessage now reply toLocaleString user t params)
                  = t \<lparr> tp_received := tp_received t @ [m] \<rparr>
              \<and> fst (EmailOperations_replyToMessage now reply toLocaleString user t params)
                  = Inr (case tp_answer t m of
                           Inl e \<Rightarrow> failure (''Failed to send reply: '' @ errmsg e)
                         | Inr info_messageId \<Rightarrow>
                             \<lparr> sr_messageId = info_messageId, sr_success = True,
                               sr_message = ''Reply sent successfully'' \<rparr>)
              \<and> (\<forall>body. rm_includeQuote params \<and> em_body orig = Some body \<and> body \<noteq> [] \<longrightarrow>
                    mo_text m = rm_body params @ [newline, newline] @ ''---'' @ [newline]
                                @ ''On '' @ toLocaleString (em_date orig) @ '', ''
                                @ em_from orig @ '' wrote:'' @ [newline] @ quotedBody body
                    \<and> split newline (quotedBody body)
                        = map (\<lambda>line. ''> '' @ line) (split newline body)
                    \<and> join [newline] (split newline body) = body)
              \<and> (\<not> rm_includeQuote params \<longrightarrow> mo_text m = rm_body params)"
    using S A q n by (intro exI [of _ m] conjI)
next
  assume "\<not> includesChar (replyTo (em_from orig)) (CHR ''@'')"
  from replyToMessage_no_address [OF assms this, of toLocaleString user t]
  show "snd (EmailOperations_replyToMessage now reply toLocaleString user t params) = t"
    by simp
qed

theorem reply_quoted_body_witness:
  "ImapService_getMessage 0 reply19 (rm_id thanks_quoting) = Inr (Some message19)
   \<and> includesChar (replyTo (em_from message19)) (CHR ''@'')
   \<and> rm_includeQuote thanks_quoting
   \<and> em_body message19 = Some (''line1'' @ [newline] @ ''line2'')
   \<and> tp_received (snd (EmailOperations_replyToMessage 0 reply19 locale_date account
                         transporter_ok thanks_quoting))
       = [hd sent_thanks_quoting]
   \<and> fst (EmailOperations_replyToMessage 0 reply19 locale_date account transporter_ok
            thanks_quoting)
       = Inr \<lparr> sr_messageId = ''<reply@smtp>'', sr_success = True,
               sr_message = ''Reply sent successfully'' \<rparr>
   \<and> mo_text (hd sent_thanks_quoting)
       = ''Thanks!'' @ [newline, newline] @ ''---'' @ [newline]
         @ ''On 11/14/2023, 10:13:25 PM, Jane Doe <jane@example.com> wrote:'' @ [newline]
         @ ''> line1'' @ [newline] @ ''> line2''
   \<and> split newline (quotedBody (''line1'' @ [newline] @ ''line2'')) = [''> line1'', ''> line2'']
   \<and> quotedBody (''line1'' @ [newline] @ ''line2'') = ''> line1'' @ [newline] @ ''> line2''
   \<and> ImapService_getMessage 0 reply19 (rm_id thanks) = Inr (Some message19)
   \<and> \<not> rm_includeQuote thanks
   \<and> tp_received (snd (EmailOperations_replyToMessage 0 reply19 locale_date account
                         transporter_ok thanks))
       = [hd sent_thanks]
   \<and> mo_text (hd sent_thanks) = ''Thanks!''
   \<and> ImapService_getMessage 0 reply_plain (rm_id thanks_plain) = Inr (Some message_plain)
   \<and> \<not> includesChar (replyTo (em_from message_plain)) (CHR ''@'')
   \<and> snd (EmailOperations_replyToMessage 0 reply_plain locale_date account transporter_ok
            thanks_plain)
       = transporter_ok"
proof -
  have h1: "ImapService_getMessage 0 reply19 (rm_id thanks_quoting) = Inr (Some message19)"
    by code_simp
  have h2: "includesChar (replyTo (em_from message19)) (CHR ''@'')"
    by code_simp
  have h3: "rm_includeQuote thanks_quoting"
    by code_simp
  have e1: "em_body message19 = Some (''line1'' @ [newline] @ ''line2'')"
    by code_simp
  have e2: "em_date message19 = 1700000005000" "em_from message19 = ''Jane Doe <jane@example.com>''"
    "rm_body thanks_quoting = ''Thanks!''"
    by code_simp+
  have q: "quotedBody (''line1'' @ [newline] @ ''line2'') = ''> line1'' @ [newline] @ ''> line2''"
    by code_simp
  have l: "split newline (''line1'' @ [newline] @ ''line2'') = [''line1'', ''line2'']"
    by code_simp
  from reply_quoted_body [OF h1, of locale_date account transporter_ok,
      THEN conjunct1, rule_format, OF h2]
  obtain m where S: "snd (EmailOperations_replyToMessage 0 reply19 locale_date account
                           transporter_ok thanks_quoting)
                  = transporter_ok \<lparr> tp_received := tp_received transporter_ok @ [m] \<rparr>"
    and A: "fst (EmailOperations_replyToMessage 0 reply19 locale_date account transporter_ok
                   thanks_quoting)
                  = Inr (case tp_answer transporter_ok m of
                           Inl e \<Rightarrow> failure (''Failed to send reply: '' @ errmsg e)
                         | Inr info_messageId \<Rightarrow>
                             \<lparr> sr_messageId = info_messageId, sr_success = True,
                               sr_message = ''Reply sent successfully'' \<rparr>)"
    and C: "\<forall>body. rm_includeQuote thanks_quoting \<and> em_body message19 = Some body
                    \<and> body \<noteq> [] \<longrightarrow>
                    mo_text m = rm_body thanks_quoting @ [newline, newline] @ ''---'' @ [newline]
                                @ ''On '' @ locale_date (em_date message19) @ '', ''
                                @ em_from message19 @ '' wrote:'' @ [newline] @ quotedBody body
                    \<and> split newline (quotedBody body)
                        = map (\<lambda>line. ''> '' @ line) (split newline body)
                    \<and> join [newline] (split newline body) = body"
    by blast
  have r: "tp_received (snd (EmailOperations_replyToMessage 0 reply19 locale_date account
                           transporter_ok thanks_quoting)) = [m]"
    unfolding S by (simp add: transporter_ok_def)
  then have m: "hd sent_thanks_quoting = m"
    by (simp add: sent_thanks_quoting_def)
  have a: "fst (EmailOperations_replyToMessage 0 reply19 locale_date account transporter_ok
                  thanks_quoting)
       = Inr \<lparr> sr_messageId = ''<reply@smtp>'', sr_success = True,
               sr_message = ''Reply sent successfully'' \<rparr>"
    unfolding A by (simp add: transporter_ok_def accepted_def)
  from C [rule_format, of "''line1'' @ [newline] @ ''line2''"] h3 e1
  have c: "mo_text m
       = rm_body thanks_quoting @ [newline, newline] @ ''---'' @ [newline] @ ''On ''
         @ locale_date (em_date message19) @ '', '' @ em_from message19
         @ '' wrote:'' @ [newline] @ quotedBody (''line1'' @ [newline] @ ''line2'')"
    and c': "split newline (quotedBody (''line1'' @ [newline] @ ''line2''))
         = map (\<lambda>line. ''> '' @ line) (split newline (''line1'' @ [newline] @ ''line2''))"
    by simp_all
  have c1: "mo_text m
       = ''Thanks!'' @ [newline, newline] @ ''---'' @ [newline]
         @ ''On 11/14/2023, 10:13:25 PM, Jane Doe <jane@example.com> wrote:'' @ [newline]
         @ ''> line1'' @ [newline] @ ''> line2''"
    unfolding c e2 q by (simp add: locale_date_def)
  have c2: "split newline (quotedBody (''line1'' @ [newline] @ ''line2'')) = [''> line1'', ''> line2'']"
    unfolding c' l by simp
  have g1: "ImapService_getMessage 0 reply19 (rm_id thanks) = Inr (Some message19)"
    by code_simp
  have g3: "\<not> rm_includeQuote thanks" "rm_body thanks = ''Thanks!''"
    by code_simp+
  from reply_quoted_body [OF g1, of locale_date account transporter_ok,
      THEN conjunct1, rule_format, OF h2]
  obtain m' where S': "snd (EmailOperations_replyToMessage 0 reply19 locale_date account
                           transporter_ok thanks)
                  = transporter_ok \<lparr> tp_received := tp_received transporter_ok @ [m'] \<rparr>"
    and C': "\<not> rm_includeQuote thanks \<longrightarrow> mo_text m' = rm_body thanks"
    by blast
  have r': "tp_received (snd (EmailOperations_replyToMessage 0 reply19 locale_date account
                           transporter_ok thanks)) = [m']"
    unfolding S' by (simp add: transporter_ok_def)
  then have m': "hd sent_thanks = m'"
    by (simp add: sent_thanks_def)
  have c3: "mo_text m' = ''Thanks!''"
    using C' g3 by simp
  have k1: "ImapService_getMessage 0 reply_plain (rm_id thanks_plain) = Inr (Some message_plain)"
    by code_simp
  have k2: "\<not> includesChar (replyTo (em_from message_plain)) (CHR ''@'')"
    by code_simp
  note k3 = reply_quoted_body [OF k1, of locale_date account transporter_ok,
      THEN conjunct2, rule_format, OF k2]
  show ?thesis
    using h1 h2 h3 e1 r m a c1 c2 q g1 g3(1) r' m' c3 k1 k2 k3 by simp
qed


section \<open>The reply address\<close>

text \<open>
  What the two regular expressions find. \<open>match\<close> returns the group of the leftmost
  start at which the expression succeeds; the first expression succeeds exactly at the
  angle pairs, the second exactly at the bare tokens, and there it takes the longest
  local part.
\<close>

lemma leftmost_None:
  assumes "at [] = None"
  shows "leftmost at h = None \<longleftrightarrow> (\<forall>pre s. h = pre @ s \<longrightarrow> at s = None)"
proof (induction h)
  case Nil
  then show ?case using assms by simp
next
  case (Cons c cs)
  show ?case
  proof (cases "at (c # cs)")
    case None
    have "(\<forall>pre s. c # cs = pre @ s \<longrightarrow> at s = None) \<longleftrightarrow> (\<forall>pre s. cs = pre @ s \<longrightarrow> at s = None)"
    proof
      assume a: "\<forall>pre s. c # cs = pre @ s \<longrightarrow> at s = None"
      show "\<forall>pre s. cs = pre @ s \<longrightarrow> at s = None"
      proof (intro allI impI)
        fix pre s assume "cs = pre @ s"
        then have "c # cs = (c # pre) @ s" by simp
        with a show "at s = None" by blast
      qed
    next
      assume a: "\<forall>pre s. cs = pre @ s \<longrightarrow> at s = None"
      show "\<forall>pre s. c # cs = pre @ s \<longrightarrow> at s = None"
      proof (intro allI impI)
        fix pre s assume e: "c # cs = pre @ s"
        show "at s = None"
        proof (cases pre)
          case Nil
          with e None show ?thesis by simp
        next
          case (Cons p ps)
          with e have "cs = ps @ s" by simp
          with a show ?thesis by blast
        qed
      qed
    qed
    with None Cons.IH show ?thesis by simp
  next
    case (Some g)
    have "c # cs = [] @ (c # cs)" by simp
    with Some have "\<not> (\<forall>pre s. c # cs = pre @ s \<longrightarrow> at s = None)"
      by (metis option.distinct(1))
    with Some show ?thesis by simp
  qed
qed

lemma leftmost_Some:
  assumes "at [] = None"
  shows "leftmost at h = Some g \<longleftrightarrow>
     (\<exists>pre s. h = pre @ s \<and> at s = Some g
        \<and> (\<forall>pre' s'. h = pre' @ s' \<and> length pre' < length pre \<longrightarrow> at s' = None))"
proof (induction h)
  case Nil
  then show ?case using assms by simp
next
  case (Cons c cs)
  show ?case
  proof (cases "at (c # cs)")
    case None
    have "(\<exists>pre s. c # cs = pre @ s \<and> at s = Some g
              \<and> (\<forall>pre' s'. c # cs = pre' @ s' \<and> length pre' < length pre \<longrightarrow> at s' = None))
        \<longleftrightarrow> (\<exists>pre s. cs = pre @ s \<and> at s = Some g
              \<and> (\<forall>pre' s'. cs = pre' @ s' \<and> length pre' < length pre \<longrightarrow> at s' = None))"
      (is "?L \<longleftrightarrow> ?R")
    proof
      assume ?L
      then obtain pre s where e: "c # cs = pre @ s" and g: "at s = Some g"
        and m: "\<forall>pre' s'. c # cs = pre' @ s' \<and> length pre' < length pre \<longrightarrow> at s' = None"
        by blast
      from e g None obtain ps where p: "pre = c # ps"
        by (cases pre) auto
      with e have e': "cs = ps @ s" by simp
      have "at s' = None" if "cs = pre' @ s'" "length pre' < length ps" for pre' s'
      proof -
        from that have "c # cs = (c # pre') @ s' \<and> length (c # pre') < length pre"
          by (simp add: p)
        with m show ?thesis by blast
      qed
      with e' g show ?R by blast
    next
      assume ?R
      then obtain ps s where e: "cs = ps @ s" and g: "at s = Some g"
        and m: "\<forall>pre' s'. cs = pre' @ s' \<and> length pre' < length ps \<longrightarrow> at s' = None"
        by blast
      have "at s' = None" if "c # cs = pre' @ s'" "length pre' < length (c # ps)" for pre' s'
      proof (cases pre')
        case Nil
        with that None show ?thesis by simp
      next
        case (Cons q qs)
        with that have "cs = qs @ s' \<and> length qs < length ps" by simp
        with m show ?thesis by blast
      qed
      moreover from e have "c # cs = (c # ps) @ s" by simp
      ultimately show ?L using g by blast
    qed
    with None Cons.IH show ?thesis by simp
  next
    case (Some g0)
    have "(\<exists>pre s. c # cs = pre @ s \<and> at s = Some g
              \<and> (\<forall>pre' s'. c # cs = pre' @ s' \<and> length pre' < length pre \<longrightarrow> at s' = None))
        \<longleftrightarrow> g0 = g"
      (is "?L \<longleftrightarrow> _")
    proof
      assume ?L
      then obtain pre s where e: "c # cs = pre @ s" and g: "at s = Some g"
        and m: "\<forall>pre' s'. c # cs = pre' @ s' \<and> length pre' < length pre \<longrightarrow> at s' = None"
        by blast
      have "pre = []"
      proof (rule ccontr)
        assume "pre \<noteq> []"
        then have "c # cs = [] @ (c # cs) \<and> length ([] :: string) < length pre" by simp
        with m have "at (c # cs) = None" by blast
        with Some show False by simp
      qed
      with e g Some show "g0 = g" by simp
    next
      assume "g0 = g"
      with Some have "c # cs = [] @ (c # cs) \<and> at (c # cs) = Some g
          \<and> (\<forall>pre' s'. c # cs = pre' @ s' \<and> length pre' < length ([] :: string) \<longrightarrow> at s' = None)"
        by simp
      then show ?L by blast
    qed
    with Some show ?thesis by auto
  qed
qed

lemma angle_at_Some:
  "angle_at s = Some g \<longleftrightarrow>
     (\<exists>post. s = CHR ''<'' # g @ CHR ''>'' # post \<and> g \<noteq> [] \<and> CHR ''>'' \<notin> set g)"
proof
  assume a: "angle_at s = Some g"
  then obtain rest where s: "s = CHR ''<'' # rest"
    by (cases s) (auto simp: angle_at_def split: if_splits)
  from a s have g: "g = takeWhile (\<lambda>x. x \<noteq> CHR ''>'') rest" and ne: "g \<noteq> []"
    and len: "length g < length rest"
    by (auto simp: angle_at_def Let_def split: if_splits)
  have r: "rest = g @ dropWhile (\<lambda>x. x \<noteq> CHR ''>'') rest"
    unfolding g by simp
  have d: "dropWhile (\<lambda>x. x \<noteq> CHR ''>'') rest \<noteq> []"
  proof
    assume "dropWhile (\<lambda>x. x \<noteq> CHR ''>'') rest = []"
    with r have "rest = g"
      by simp
    with len show False
      by simp
  qed
  then have "hd (dropWhile (\<lambda>x. x \<noteq> CHR ''>'') rest) = CHR ''>''"
    using hd_dropWhile [of "\<lambda>x. x \<noteq> CHR ''>''" rest] by simp
  with d obtain post where "dropWhile (\<lambda>x. x \<noteq> CHR ''>'') rest = CHR ''>'' # post"
    by (cases "dropWhile (\<lambda>x. x \<noteq> CHR ''>'') rest") auto
  with r have "rest = g @ CHR ''>'' # post"
    by simp
  moreover have "CHR ''>'' \<notin> set g"
    unfolding g by (auto dest: set_takeWhileD)
  ultimately show "\<exists>post. s = CHR ''<'' # g @ CHR ''>'' # post \<and> g \<noteq> [] \<and> CHR ''>'' \<notin> set g"
    using s ne by blast
next
  assume "\<exists>post. s = CHR ''<'' # g @ CHR ''>'' # post \<and> g \<noteq> [] \<and> CHR ''>'' \<notin> set g"
  then obtain post where s: "s = CHR ''<'' # g @ CHR ''>'' # post" and ne: "g \<noteq> []"
    and g: "CHR ''>'' \<notin> set g"
    by blast
  have "takeWhile (\<lambda>x. x \<noteq> CHR ''>'') (g @ CHR ''>'' # post) = g"
    using g by (auto simp: takeWhile_tail)
  with s ne show "angle_at s = Some g"
    by (simp add: angle_at_def)
qed

lemma angle_at_None:
  "angle_at s = None \<longleftrightarrow>
     (\<nexists>g post. s = CHR ''<'' # g @ CHR ''>'' # post \<and> g \<noteq> [] \<and> CHR ''>'' \<notin> set g)"
proof -
  have "angle_at s = None \<longleftrightarrow> (\<nexists>g. angle_at s = Some g)"
    by auto
  then show ?thesis
    unfolding angle_at_Some by blast
qed

lemma angle_at_pair: "angle_at s = Some g \<longleftrightarrow> (\<exists>post. angle_pair (pre @ s) pre g post)"
  unfolding angle_at_Some angle_pair_def by simp

lemma angle_at_no_pair: "angle_at s = None \<longleftrightarrow> (\<nexists>g post. angle_pair (pre @ s) pre g post)"
  unfolding angle_at_None angle_pair_def by simp

lemma angle_pair_split: "angle_pair h pre g post \<Longrightarrow> \<exists>s. h = pre @ s"
  by (auto simp: angle_pair_def)

lemma match_angle_None_iff:
  "match_angle h = None \<longleftrightarrow> (\<nexists>pre g post. angle_pair h pre g post)"
proof -
  have "match_angle h = None \<longleftrightarrow> (\<forall>pre s. h = pre @ s \<longrightarrow> angle_at s = None)"
    unfolding match_angle_def by (rule leftmost_None) (simp add: angle_at_def)
  also have "\<dots> \<longleftrightarrow> (\<nexists>pre g post. angle_pair h pre g post)"
  proof
    assume a: "\<forall>pre s. h = pre @ s \<longrightarrow> angle_at s = None"
    show "\<nexists>pre g post. angle_pair h pre g post"
    proof
      assume "\<exists>pre g post. angle_pair h pre g post"
      then obtain pre g post where p: "angle_pair h pre g post"
        by blast
      then obtain s where s: "h = pre @ s"
        using angle_pair_split by blast
      with a have "angle_at s = None"
        by blast
      with p s show False
        using angle_at_no_pair [of s pre] by blast
    qed
  next
    assume a: "\<nexists>pre g post. angle_pair h pre g post"
    show "\<forall>pre s. h = pre @ s \<longrightarrow> angle_at s = None"
    proof (intro allI impI)
      fix pre s assume "h = pre @ s"
      with a show "angle_at s = None"
        using angle_at_no_pair [of s pre] by blast
    qed
  qed
  finally show ?thesis .
qed

lemma match_angle_iff: "match_angle h = Some g \<longleftrightarrow> first_angle_pair h g"
proof -
  have "match_angle h = Some g \<longleftrightarrow>
     (\<exists>pre s. h = pre @ s \<and> angle_at s = Some g
        \<and> (\<forall>pre' s'. h = pre' @ s' \<and> length pre' < length pre \<longrightarrow> angle_at s' = None))"
    unfolding match_angle_def by (rule leftmost_Some) (simp add: angle_at_def)
  also have "\<dots> \<longleftrightarrow> first_angle_pair h g"
  proof
    assume "\<exists>pre s. h = pre @ s \<and> angle_at s = Some g
        \<and> (\<forall>pre' s'. h = pre' @ s' \<and> length pre' < length pre \<longrightarrow> angle_at s' = None)"
    then obtain pre s where s: "h = pre @ s" and g: "angle_at s = Some g"
      and m: "\<forall>pre' s'. h = pre' @ s' \<and> length pre' < length pre \<longrightarrow> angle_at s' = None"
      by blast
    from g s obtain post where p: "angle_pair h pre g post"
      using angle_at_pair [of s g pre] by blast
    have "length pre \<le> length pre'" if q: "angle_pair h pre' g' post'" for pre' g' post'
    proof (rule ccontr)
      assume "\<not> length pre \<le> length pre'"
      then have l: "length pre' < length pre"
        by simp
      from q obtain s' where s': "h = pre' @ s'"
        using angle_pair_split by blast
      with m l have "angle_at s' = None"
        by blast
      with q s' show False
        using angle_at_no_pair [of s' pre'] by blast
    qed
    with p show "first_angle_pair h g"
      unfolding first_angle_pair_def by blast
  next
    assume "first_angle_pair h g"
    then obtain pre post where p: "angle_pair h pre g post"
      and m: "\<forall>pre' g' post'. angle_pair h pre' g' post' \<longrightarrow> length pre \<le> length pre'"
      unfolding first_angle_pair_def by blast
    from p obtain s where s: "h = pre @ s"
      using angle_pair_split by blast
    with p have g: "angle_at s = Some g"
      using angle_at_pair [of s g pre] by blast
    have "angle_at s' = None" if "h = pre' @ s'" "length pre' < length pre" for pre' s'
    proof (rule ccontr)
      assume "angle_at s' \<noteq> None"
      then obtain g' where "angle_at s' = Some g'"
        by auto
      with that(1) obtain post' where "angle_pair h pre' g' post'"
        using angle_at_pair [of s' g' pre'] by blast
      with m have "length pre \<le> length pre'"
        by blast
      with that(2) show False
        by simp
    qed
    with s g show "\<exists>pre s. h = pre @ s \<and> angle_at s = Some g
        \<and> (\<forall>pre' s'. h = pre' @ s' \<and> length pre' < length pre \<longrightarrow> angle_at s' = None)"
      by blast
  qed
  finally show ?thesis .
qed

lemma bare_token_split: "bare_token h pre l d post \<Longrightarrow> \<exists>s. h = pre @ s"
  by (auto simp: bare_token_def)

lemma bare_token_shift:
  "bare_token (pre @ s) pre l d post \<longleftrightarrow> bare_token s [] l d post"
  by (simp add: bare_token_def)

lemma bare_token_value:
  assumes "bare_token s [] l d post"
  shows "l @ ''@'' @ d
     = take (Suc (length l)) s
       @ takeWhile (\<lambda>c. \<not> isSpace c \<and> c \<noteq> CHR ''>'') (drop (Suc (length l)) s)"
proof -
  from assms have s: "s = l @ CHR ''@'' # d @ post"
    and d: "\<forall>c \<in> set d. \<not> isSpace c \<and> c \<noteq> CHR ''>''"
    and post: "post = [] \<or> isSpace (hd post) \<or> hd post = CHR ''>''"
    by (simp_all add: bare_token_def)
  have "takeWhile (\<lambda>c. \<not> isSpace c \<and> c \<noteq> CHR ''>'') post = []"
    using post by (cases post) auto
  with d have "takeWhile (\<lambda>c. \<not> isSpace c \<and> c \<noteq> CHR ''>'') (d @ post) = d"
    by (simp add: takeWhile_append2)
  moreover have "take (Suc (length l)) s = l @ ''@''"
    by (simp add: s)
  moreover have "drop (Suc (length l)) s = d @ post"
    by (simp add: s)
  ultimately show ?thesis
    by simp
qed

lemma bare_token_index:
  "j \<in> set (filter (\<lambda>j. s ! j = CHR ''@'' \<and> Suc j < length s
                          \<and> \<not> isSpace (s ! Suc j) \<and> s ! Suc j \<noteq> CHR ''>'')
              [1 ..< length (takeWhile (\<lambda>c. \<not> isSpace c \<and> c \<noteq> CHR ''<'') s)])
   \<longleftrightarrow> (\<exists>l d post. bare_token s [] l d post \<and> length l = j)"
proof
  define ok1 where "ok1 = (\<lambda>c. \<not> isSpace c \<and> c \<noteq> CHR ''<'')"
  define ok2 where "ok2 = (\<lambda>c. \<not> isSpace c \<and> c \<noteq> CHR ''>'')"
  assume "j \<in> set (filter (\<lambda>j. s ! j = CHR ''@'' \<and> Suc j < length s
                          \<and> \<not> isSpace (s ! Suc j) \<and> s ! Suc j \<noteq> CHR ''>'')
              [1 ..< length (takeWhile (\<lambda>c. \<not> isSpace c \<and> c \<noteq> CHR ''<'') s)])"
  then have j1: "1 \<le> j" and jr: "j < length (takeWhile ok1 s)" and at: "s ! j = CHR ''@''"
    and js: "Suc j < length s" and nx: "ok2 (s ! Suc j)"
    by (simp_all add: ok1_def ok2_def)
  define l where "l = take j s"
  define d where "d = takeWhile ok2 (drop (Suc j) s)"
  define post where "post = dropWhile ok2 (drop (Suc j) s)"
  have len: "length l = j"
    using js by (simp add: l_def)
  have l_ne: "l \<noteq> []"
    using len j1 by auto
  define run where "run = takeWhile ok1 s"
  define rest where "rest = dropWhile ok1 s"
  have sr: "run @ rest = s"
    by (simp add: run_def rest_def)
  have "take j (run @ rest) = take j run"
    using jr by (simp add: run_def)
  then have "take j s = take j run"
    by (simp only: sr)
  then have "set l \<subseteq> set (takeWhile ok1 s)"
    unfolding l_def run_def by (simp add: set_take_subset)
  then have l_ok: "\<forall>c \<in> set l. ok1 c"
    by (auto dest: set_takeWhileD)
  have dr: "drop (Suc j) s = s ! Suc j # drop (Suc (Suc j)) s"
    using js by (simp add: Cons_nth_drop_Suc)
  have d_ne: "d \<noteq> []"
    unfolding d_def dr using nx by simp
  have d_ok: "\<forall>c \<in> set d. ok2 c"
    unfolding d_def by (auto dest: set_takeWhileD)
  have p: "post = [] \<or> \<not> ok2 (hd post)"
    unfolding post_def using hd_dropWhile [of ok2 "drop (Suc j) s"] by blast
  have "s = take j s @ s ! j # drop (Suc j) s"
    using js by (simp add: id_take_nth_drop)
  also have "drop (Suc j) s = d @ post"
    by (simp add: d_def post_def)
  finally have "s = l @ CHR ''@'' # d @ post"
    by (simp add: l_def at)
  with l_ne l_ok d_ne d_ok p have "bare_token s [] l d post"
    by (auto simp: bare_token_def ok1_def ok2_def)
  with len show "\<exists>l d post. bare_token s [] l d post \<and> length l = j"
    by blast
next
  define ok1 where "ok1 = (\<lambda>c. \<not> isSpace c \<and> c \<noteq> CHR ''<'')"
  assume "\<exists>l d post. bare_token s [] l d post \<and> length l = j"
  then obtain l d post where s: "s = l @ CHR ''@'' # d @ post" and l_ne: "l \<noteq> []"
    and l_ok: "\<forall>c \<in> set l. ok1 c" and d_ne: "d \<noteq> []"
    and d_ok: "\<forall>c \<in> set d. \<not> isSpace c \<and> c \<noteq> CHR ''>''" and len: "length l = j"
    by (auto simp: bare_token_def ok1_def)
  have "ok1 (CHR ''@'')"
    by (simp add: ok1_def isSpace_def)
  then have "takeWhile ok1 s = l @ CHR ''@'' # takeWhile ok1 (d @ post)"
    unfolding s using l_ok by (simp add: takeWhile_append2)
  then have jr: "j < length (takeWhile ok1 s)"
    using len by simp
  have j1: "1 \<le> j"
    using l_ne len by (cases l) auto
  have at: "s ! j = CHR ''@''"
    using len by (simp add: s nth_append)
  have js: "Suc j < length s"
    using d_ne len by (simp add: s)
  have "s ! Suc j = hd d"
    using d_ne len by (cases d) (simp_all add: s nth_append)
  moreover have "hd d \<in> set d"
    using d_ne by simp
  ultimately have nx: "\<not> isSpace (s ! Suc j) \<and> s ! Suc j \<noteq> CHR ''>''"
    using d_ok by simp
  show "j \<in> set (filter (\<lambda>j. s ! j = CHR ''@'' \<and> Suc j < length s
                          \<and> \<not> isSpace (s ! Suc j) \<and> s ! Suc j \<noteq> CHR ''>'')
              [1 ..< length (takeWhile (\<lambda>c. \<not> isSpace c \<and> c \<noteq> CHR ''<'') s)])"
    using j1 jr at js nx by (simp add: ok1_def)
qed

lemma sorted_le_last: "sorted xs \<Longrightarrow> x \<in> set xs \<Longrightarrow> x \<le> last xs"
  for xs :: "nat list"
  by (induction xs) auto

lemma last_filter_upt:
  assumes "filter P [a ..< b] \<noteq> []"
  shows "last (filter P [a ..< b]) \<in> set (filter P [a ..< b])
     \<and> (\<forall>j \<in> set (filter P [a ..< b]). j \<le> last (filter P [a ..< b]))"
proof -
  have "sorted (filter P [a ..< b])"
    by (rule sorted_wrt_filter) simp
  then have "\<forall>j \<in> set (filter P [a ..< b]). j \<le> last (filter P [a ..< b])"
    using sorted_le_last by blast
  with assms show ?thesis
    using last_in_set by blast
qed

lemma bare_at_None:
  "bare_at s = None \<longleftrightarrow> (\<nexists>l d post. bare_token s [] l d post)"
proof -
  define js where "js = filter (\<lambda>j. s ! j = CHR ''@'' \<and> Suc j < length s
                          \<and> \<not> isSpace (s ! Suc j) \<and> s ! Suc j \<noteq> CHR ''>'')
              [1 ..< length (takeWhile (\<lambda>c. \<not> isSpace c \<and> c \<noteq> CHR ''<'') s)]"
  have "bare_at s = None \<longleftrightarrow> js = []"
    by (simp add: bare_at_def Let_def js_def)
  also have "\<dots> \<longleftrightarrow> (\<nexists>j. j \<in> set js)"
    by (cases js) auto
  also have "\<dots> \<longleftrightarrow> (\<nexists>l d post. bare_token s [] l d post)"
    unfolding js_def bare_token_index by blast
  finally show ?thesis .
qed

lemma bare_at_Some:
  "bare_at s = Some tok \<longleftrightarrow>
     (\<exists>l d post. tok = l @ ''@'' @ d \<and> bare_token s [] l d post
        \<and> (\<forall>l' d' post'. bare_token s [] l' d' post' \<longrightarrow> length l' \<le> length l))"
proof
  define js where "js = filter (\<lambda>j. s ! j = CHR ''@'' \<and> Suc j < length s
                          \<and> \<not> isSpace (s ! Suc j) \<and> s ! Suc j \<noteq> CHR ''>'')
              [1 ..< length (takeWhile (\<lambda>c. \<not> isSpace c \<and> c \<noteq> CHR ''<'') s)]"
  assume a: "bare_at s = Some tok"
  then have ne: "js \<noteq> []"
    by (auto simp: bare_at_def Let_def js_def split: if_splits)
  with a have tok: "tok = take (Suc (last js)) s
       @ takeWhile (\<lambda>c. \<not> isSpace c \<and> c \<noteq> CHR ''>'') (drop (Suc (last js)) s)"
    by (auto simp: bare_at_def Let_def js_def split: if_splits)
  from ne have "last js \<in> set js" and mx: "\<forall>j \<in> set js. j \<le> last js"
    unfolding js_def using last_filter_upt by blast+
  then obtain l d post where t: "bare_token s [] l d post" and len: "length l = last js"
    unfolding js_def bare_token_index by blast
  have "tok = l @ ''@'' @ d"
    unfolding tok bare_token_value [OF t] len ..
  moreover have "length l' \<le> length l" if "bare_token s [] l' d' post'" for l' d' post'
  proof -
    from that have "length l' \<in> set js"
      unfolding js_def bare_token_index by blast
    with mx len show ?thesis
      by simp
  qed
  ultimately show "\<exists>l d post. tok = l @ ''@'' @ d \<and> bare_token s [] l d post
        \<and> (\<forall>l' d' post'. bare_token s [] l' d' post' \<longrightarrow> length l' \<le> length l)"
    using t by blast
next
  define js where "js = filter (\<lambda>j. s ! j = CHR ''@'' \<and> Suc j < length s
                          \<and> \<not> isSpace (s ! Suc j) \<and> s ! Suc j \<noteq> CHR ''>'')
              [1 ..< length (takeWhile (\<lambda>c. \<not> isSpace c \<and> c \<noteq> CHR ''<'') s)]"
  assume "\<exists>l d post. tok = l @ ''@'' @ d \<and> bare_token s [] l d post
        \<and> (\<forall>l' d' post'. bare_token s [] l' d' post' \<longrightarrow> length l' \<le> length l)"
  then obtain l d post where tok: "tok = l @ ''@'' @ d" and t: "bare_token s [] l d post"
    and mx: "\<forall>l' d' post'. bare_token s [] l' d' post' \<longrightarrow> length l' \<le> length l"
    by blast
  from t have in_js: "length l \<in> set js"
    unfolding js_def bare_token_index by blast
  then have ne: "js \<noteq> []"
    by auto
  then have "last js \<in> set js" and le: "length l \<le> last js"
    unfolding js_def using last_filter_upt in_js [unfolded js_def] by blast+
  then obtain l' d' post' where "bare_token s [] l' d' post'" and "length l' = last js"
    unfolding js_def bare_token_index by blast
  with mx have "last js \<le> length l"
    by metis
  with le have len: "length l = last js"
    by simp
  have "bare_at s = Some (take (Suc (last js)) s
       @ takeWhile (\<lambda>c. \<not> isSpace c \<and> c \<noteq> CHR ''>'') (drop (Suc (last js)) s))"
    using ne by (simp add: bare_at_def Let_def js_def)
  also have "\<dots> = Some tok"
    unfolding tok bare_token_value [OF t] len ..
  finally show "bare_at s = Some tok" .
qed

lemma match_bare_None_iff:
  "match_bare h = None \<longleftrightarrow> (\<nexists>pre l d post. bare_token h pre l d post)"
proof -
  have e: "bare_at [] = None"
    by (simp add: bare_at_def)
  have "match_bare h = None \<longleftrightarrow> (\<forall>pre s. h = pre @ s \<longrightarrow> bare_at s = None)"
    unfolding match_bare_def by (rule leftmost_None [of bare_at, OF e])
  also have "\<dots> \<longleftrightarrow> (\<nexists>pre l d post. bare_token h pre l d post)"
  proof
    assume a: "\<forall>pre s. h = pre @ s \<longrightarrow> bare_at s = None"
    show "\<nexists>pre l d post. bare_token h pre l d post"
    proof
      assume "\<exists>pre l d post. bare_token h pre l d post"
      then obtain pre l d post where p: "bare_token h pre l d post"
        by blast
      then obtain s where s: "h = pre @ s"
        using bare_token_split by blast
      with a have "bare_at s = None"
        by blast
      with p s show False
        unfolding bare_at_None using bare_token_shift by blast
    qed
  next
    assume a: "\<nexists>pre l d post. bare_token h pre l d post"
    show "\<forall>pre s. h = pre @ s \<longrightarrow> bare_at s = None"
    proof (intro allI impI)
      fix pre s assume "h = pre @ s"
      with a show "bare_at s = None"
        unfolding bare_at_None using bare_token_shift by blast
    qed
  qed
  finally show ?thesis .
qed

lemma match_bare_iff: "match_bare h = Some tok \<longleftrightarrow> first_bare_token h tok"
proof -
  have e: "bare_at [] = None"
    by (simp add: bare_at_def)
  have "match_bare h = Some tok \<longleftrightarrow>
     (\<exists>pre s. h = pre @ s \<and> bare_at s = Some tok
        \<and> (\<forall>pre' s'. h = pre' @ s' \<and> length pre' < length pre \<longrightarrow> bare_at s' = None))"
    unfolding match_bare_def by (rule leftmost_Some [of bare_at, OF e])
  also have "\<dots> \<longleftrightarrow> first_bare_token h tok"
  proof
    assume "\<exists>pre s. h = pre @ s \<and> bare_at s = Some tok
        \<and> (\<forall>pre' s'. h = pre' @ s' \<and> length pre' < length pre \<longrightarrow> bare_at s' = None)"
    then obtain pre s where s: "h = pre @ s" and g: "bare_at s = Some tok"
      and m: "\<forall>pre' s'. h = pre' @ s' \<and> length pre' < length pre \<longrightarrow> bare_at s' = None"
      by blast
    from g obtain l d post where tok: "tok = l @ ''@'' @ d" and t: "bare_token s [] l d post"
      and mx: "\<forall>l' d' post'. bare_token s [] l' d' post' \<longrightarrow> length l' \<le> length l"
      unfolding bare_at_Some by blast
    from t s have t': "bare_token h pre l d post"
      using bare_token_shift by blast
    have "length pre < length pre' \<or> (length pre = length pre' \<and> length l' \<le> length l)"
      if q: "bare_token h pre' l' d' post'" for pre' l' d' post'
    proof -
      from q obtain s' where s': "h = pre' @ s'"
        using bare_token_split by blast
      with q have q': "bare_token s' [] l' d' post'"
        using bare_token_shift by blast
      consider "length pre' < length pre" | "length pre' = length pre" | "length pre < length pre'"
        by linarith
      then show ?thesis
      proof cases
        case 1
        with m s' have "bare_at s' = None"
          by blast
        with q' show ?thesis
          unfolding bare_at_None by blast
      next
        case 2
        with s s' have "pre' = pre \<and> s' = s"
          by (metis append_eq_append_conv)
        with q' mx 2 show ?thesis
          by auto
      next
        case 3
        then show ?thesis
          by simp
      qed
    qed
    with tok t' show "first_bare_token h tok"
      unfolding first_bare_token_def by blast
  next
    assume "first_bare_token h tok"
    then obtain pre l d post where tok: "tok = l @ ''@'' @ d" and t: "bare_token h pre l d post"
      and m: "\<forall>pre' l' d' post'. bare_token h pre' l' d' post' \<longrightarrow>
              length pre < length pre'
              \<or> (length pre = length pre' \<and> length l' \<le> length l)"
      unfolding first_bare_token_def by blast
    from t obtain s where s: "h = pre @ s"
      using bare_token_split by blast
    with t have t': "bare_token s [] l d post"
      using bare_token_shift by blast
    have "length l' \<le> length l" if "bare_token s [] l' d' post'" for l' d' post'
    proof -
      from that s have "bare_token h pre l' d' post'"
        using bare_token_shift by blast
      with m show ?thesis
        by blast
    qed
    with tok t' have g: "bare_at s = Some tok"
      unfolding bare_at_Some by blast
    have "bare_at s' = None" if "h = pre' @ s'" "length pre' < length pre" for pre' s'
    proof (rule ccontr)
      assume "bare_at s' \<noteq> None"
      then obtain l' d' post' where "bare_token s' [] l' d' post'"
        unfolding bare_at_None by blast
      with that(1) have "bare_token h pre' l' d' post'"
        using bare_token_shift by blast
      with m have "length pre < length pre' \<or> length pre = length pre'"
        by blast
      with that(2) show False
        by simp
    qed
    with s g show "\<exists>pre s. h = pre @ s \<and> bare_at s = Some tok
        \<and> (\<forall>pre' s'. h = pre' @ s' \<and> length pre' < length pre \<longrightarrow> bare_at s' = None)"
      by blast
  qed
  finally show ?thesis .
qed

text \<open>
  Claim C7, as stated, asks for the failure result whenever neither pattern matches.
  The header \<open>Jane Doe @home\<close> is matched by neither pattern; \<open>replyToMessage\<close> then
  takes the header itself, finds an \<open>@\<close> in it and hands the mail to the transporter.
\<close>

theorem reply_address_counterexample:
  "pm_from parsed_home = Some ''Jane Doe @home''
   \<and> match_angle ''Jane Doe @home'' = None
   \<and> match_bare ''Jane Doe @home'' = None
   \<and> fst (EmailOperations_replyToMessage 0 reply_home locale_date account transporter_ok
            thanks_home)
       = Inr \<lparr> sr_messageId = ''<reply@smtp>'', sr_success = True,
               sr_message = ''Reply sent successfully'' \<rparr>
   \<and> tp_received (snd (EmailOperations_replyToMessage 0 reply_home locale_date account
                         transporter_ok thanks_home))
       = [\<lparr> mo_from = ''me@example.com'', mo_to = ''Jane Doe @home'',
            mo_subject = ''Re: Hello'', mo_text = ''Thanks!'', mo_cc = None,
            mo_inReplyTo = None, mo_references = None \<rparr>]"
  by code_simp

text \<open>
  Claim C7, amended. The reply address is the text of the first angle pair of the
  From header if the header has an angle pair; otherwise the first bare token if it
  has a bare token; otherwise the From header itself. When that value holds no \<open>@\<close>
  (as for \<open>Jane Doe\<close>), \<open>replyToMessage\<close> returns the failure result (no success,
  empty message identifier) and hands nothing to the transporter; when it holds an
  \<open>@\<close>, exactly one mail is handed over, addressed to that value, and the answer of
  the transporter to that mail is what is returned.
\<close>

theorem reply_address:
  "(\<forall>g. first_angle_pair h g \<longrightarrow> replyTo h = g)
   \<and> ((\<exists>pre g post. angle_pair h pre g post) \<longrightarrow> (\<exists>g. first_angle_pair h g))
   \<and> (\<forall>tok. (\<nexists>pre g post. angle_pair h pre g post) \<and> first_bare_token h tok
         \<longrightarrow> replyTo h = tok)
   \<and> ((\<exists>pre l d post. bare_token h pre l d post) \<longrightarrow> (\<exists>tok. first_bare_token h tok))
   \<and> ((\<nexists>pre g post. angle_pair h pre g post) \<and> (\<nexists>pre l d post. bare_token h pre l d post)
         \<longrightarrow> replyTo h = h)
   \<and> (ImapService_getMessage now reply (rm_id params) = Inr (Some orig)
        \<and> \<not> includesChar (replyTo (em_from orig)) (CHR ''@'') \<longrightarrow>
        EmailOperations_replyToMessage now reply toLocaleString user t params
          = (Inr \<lparr> sr_messageId = [], sr_success = False,
                   sr_message = ''Could not determine reply address from original message'' \<rparr>,
             t))
   \<and> (ImapService_getMessage now reply (rm_id params) = Inr (Some orig)
        \<and> includesChar (replyTo (em_from orig)) (CHR ''@'') \<longrightarrow>
        (\<exists>m. snd (EmailOperations_replyToMessage now reply toLocaleString user t params)
               = t \<lparr> tp_received := tp_received t @ [m] \<rparr>
           \<and> mo_to m = replyTo (em_from orig)
           \<and> fst (EmailOperations_replyToMessage now reply toLocaleString user t params)
               = Inr (case tp_answer t m of
                        Inl e \<Rightarrow> failure (''Failed to send reply: '' @ errmsg e)
                      | Inr info_messageId \<Rightarrow>
                          \<lparr> sr_messageId = info_messageId, sr_success = True,
                            sr_message = ''Reply sent successfully'' \<rparr>)))"
proof (intro conjI allI impI)
  fix g
  assume "first_angle_pair h g"
  then have "match_angle h = Some g"
    by (simp add: match_angle_iff)
  then show "replyTo h = g"
    by (simp add: replyTo_def fromMatch_def)
next
  assume "\<exists>pre g post. angle_pair h pre g post"
  then have "match_angle h \<noteq> None"
    by (simp add: match_angle_None_iff)
  then obtain g where "match_angle h = Some g"
    by auto
  then show "\<exists>g. first_angle_pair h g"
    unfolding match_angle_iff by blast
next
  fix tok
  assume "(\<nexists>pre g post. angle_pair h pre g post) \<and> first_bare_token h tok"
  then have "match_angle h = None" and "match_bare h = Some tok"
    by (simp_all add: match_angle_None_iff match_bare_iff)
  then show "replyTo h = tok"
    by (simp add: replyTo_def fromMatch_def)
next
  assume "\<exists>pre l d post. bare_token h pre l d post"
  then have "match_bare h \<noteq> None"
    by (simp add: match_bare_None_iff)
  then obtain tok where "match_bare h = Some tok"
    by auto
  then show "\<exists>tok. first_bare_token h tok"
    unfolding match_bare_iff by blast
next
  assume "(\<nexists>pre g post. angle_pair h pre g post) \<and> (\<nexists>pre l d post. bare_token h pre l d post)"
  then have "match_angle h = None" and "match_bare h = None"
    by (simp_all add: match_angle_None_iff match_bare_None_iff)
  then show "replyTo h = h"
    by (simp add: replyTo_def fromMatch_def)
next
  assume "ImapService_getMessage now reply (rm_id params) = Inr (Some orig)
        \<and> \<not> includesChar (replyTo (em_from orig)) (CHR ''@'')"
  then show "EmailOperations_replyToMessage now reply toLocaleString user t params
          = (Inr \<lparr> sr_messageId = [], sr_success = False,
                   sr_message = ''Could not determine reply address from original message'' \<rparr>,
             t)"
    using replyToMessage_no_address [of now reply params orig toLocaleString user t]
    by (simp add: failure_def)
next
  assume "ImapService_getMessage now reply (rm_id params) = Inr (Some orig)
        \<and> includesChar (replyTo (em_from orig)) (CHR ''@'')"
  then obtain m where S: "snd (EmailOperations_replyToMessage now reply toLocaleString user t params)
           = t \<lparr> tp_received := tp_received t @ [m] \<rparr>"
    and A: "fst (EmailOperations_replyToMessage now reply toLocaleString user t params)
         = Inr (case tp_answer t m of
                  Inl e \<Rightarrow> failure (''Failed to send reply: '' @ errmsg e)
                | Inr info_messageId \<Rightarrow>
                    \<lparr> sr_messageId = info_messageId, sr_success = True,
                      sr_message = ''Reply sent successfully'' \<rparr>)"
    and T: "mo_to m = replyTo (em_from orig)"
    using replyToMessage_sent [of now reply params orig toLocaleString user t] by blast
  show "\<exists>m. snd (EmailOperations_replyToMessage now reply toLocaleString user t params)
               = t \<lparr> tp_received := tp_received t @ [m] \<rparr>
           \<and> mo_to m = replyTo (em_from orig)
           \<and> fst (EmailOperations_replyToMessage now reply toLocaleString user t params)
               = Inr (case tp_answer t m of
                        Inl e \<Rightarrow> failure (''Failed to send reply: '' @ errmsg e)
                      | Inr info_messageId \<Rightarrow>
                          \<lparr> sr_messageId = info_messageId, sr_success = True,
                            sr_message = ''Reply sent successfully'' \<rparr>)"
    using S A T by (intro exI [of _ m] conjI)
qed

theorem reply_address_witness:
  "first_angle_pair ''Jane Doe <jane@example.com>'' ''jane@example.com''
   \<and> replyTo ''Jane Doe <jane@example.com>'' = ''jane@example.com''
   \<and> first_angle_pair ''a@b <> <c@d>'' ''c@d''
   \<and> replyTo ''a@b <> <c@d>'' = ''c@d''
   \<and> (\<exists>g. first_angle_pair ''<<a>'' g)
   \<and> (\<nexists>pre g post. angle_pair ''jane@example.com'' pre g post)
   \<and> first_bare_token ''jane@example.com'' ''jane@example.com''
   \<and> replyTo ''jane@example.com'' = ''jane@example.com''
   \<and> (\<nexists>pre g post. angle_pair ''Jane <jane@example.com'' pre g post)
   \<and> first_bare_token ''Jane <jane@example.com'' ''jane@example.com''
   \<and> replyTo ''Jane <jane@example.com'' = ''jane@example.com''
   \<and> (\<nexists>pre g post. angle_pair ''x a@b>c y'' pre g post)
   \<and> first_bare_token ''x a@b>c y'' ''a@b''
   \<and> replyTo ''x a@b>c y'' = ''a@b''
   \<and> (\<exists>tok. first_bare_token ''to a@b@c now'' tok)
   \<and> (\<nexists>pre g post. angle_pair ''Jane Doe'' pre g post)
   \<and> (\<nexists>pre l d post. bare_token ''Jane Doe'' pre l d post)
   \<and> replyTo ''Jane Doe'' = ''Jane Doe''
   \<and> ImapService_getMessage 0 reply_plain (rm_id thanks_plain) = Inr (Some message_plain)
   \<and> em_from message_plain = ''Jane Doe''
   \<and> EmailOperations_replyToMessage 0 reply_plain locale_date account transporter_ok thanks_plain
       = (Inr \<lparr> sr_messageId = [], sr_success = False,
                sr_message = ''Could not determine reply address from original message'' \<rparr>,
          transporter_ok)
   \<and> ImapService_getMessage 0 reply19 (rm_id thanks) = Inr (Some message19)
   \<and> em_from message19 = ''Jane Doe <jane@example.com>''
   \<and> map mo_to (tp_received (snd (EmailOperations_replyToMessage 0 reply19 locale_date account
                                     transporter_ok thanks)))
       = [''jane@example.com'']
   \<and> fst (EmailOperations_replyToMessage 0 reply19 locale_date account transporter_ok thanks)
       = Inr \<lparr> sr_messageId = ''<reply@smtp>'', sr_success = True,
               sr_message = ''Reply sent successfully'' \<rparr>"
proof -
  have a1: "first_angle_pair ''Jane Doe <jane@example.com>'' ''jane@example.com''"
    unfolding match_angle_iff [symmetric] by code_simp
  then have a2: "replyTo ''Jane Doe <jane@example.com>'' = ''jane@example.com''"
    by (rule reply_address [THEN conjunct1, rule_format])
  have b1: "first_angle_pair ''a@b <> <c@d>'' ''c@d''"
    unfolding match_angle_iff [symmetric] by code_simp
  then have b2: "replyTo ''a@b <> <c@d>'' = ''c@d''"
    by (rule reply_address [THEN conjunct1, rule_format])
  have "angle_pair ''<<a>'' [] ''<a'' []"
    by (simp add: angle_pair_def)
  then have "\<exists>pre g post. angle_pair ''<<a>'' pre g post"
    by blast
  then have c1: "\<exists>g. first_angle_pair ''<<a>'' g"
    by (rule reply_address [THEN conjunct2, THEN conjunct1, rule_format])
  have d1: "\<nexists>pre g post. angle_pair ''jane@example.com'' pre g post"
    unfolding match_angle_None_iff [symmetric] by code_simp
  have d2: "first_bare_token ''jane@example.com'' ''jane@example.com''"
    unfolding match_bare_iff [symmetric] by code_simp
  have d3: "replyTo ''jane@example.com'' = ''jane@example.com''"
    using conjI [OF d1 d2]
    by (rule reply_address [THEN conjunct2, THEN conjunct2, THEN conjunct1, rule_format])
  have e1: "\<nexists>pre g post. angle_pair ''Jane <jane@example.com'' pre g post"
    unfolding match_angle_None_iff [symmetric] by code_simp
  have e2: "first_bare_token ''Jane <jane@example.com'' ''jane@example.com''"
    unfolding match_bare_iff [symmetric] by code_simp
  have e3: "replyTo ''Jane <jane@example.com'' = ''jane@example.com''"
    using conjI [OF e1 e2]
    by (rule reply_address [THEN conjunct2, THEN conjunct2, THEN conjunct1, rule_format])
  have f1: "\<nexists>pre g post. angle_pair ''x a@b>c y'' pre g post"
    unfolding match_angle_None_iff [symmetric] by code_simp
  have f2: "first_bare_token ''x a@b>c y'' ''a@b''"
    unfolding match_bare_iff [symmetric] by code_simp
  have f3: "replyTo ''x a@b>c y'' = ''a@b''"
    using conjI [OF f1 f2]
    by (rule reply_address [THEN conjunct2, THEN conjunct2, THEN conjunct1, rule_format])
  have "bare_token ''to a@b@c now'' ''to '' ''a'' ''b@c'' '' now''"
    by (simp add: bare_token_def isSpace_def)
  then have "\<exists>pre l d post. bare_token ''to a@b@c now'' pre l d post"
    by blast
  then have g1: "\<exists>tok. first_bare_token ''to a@b@c now'' tok"
    by (rule reply_address
          [THEN conjunct2, THEN conjunct2, THEN conjunct2, THEN conjunct1, rule_format])
  have h1: "\<nexists>pre g post. angle_pair ''Jane Doe'' pre g post"
    unfolding match_angle_None_iff [symmetric] by code_simp
  have h2: "\<nexists>pre l d post. bare_token ''Jane Doe'' pre l d post"
    unfolding match_bare_None_iff [symmetric] by code_simp
  have h3: "replyTo ''Jane Doe'' = ''Jane Doe''"
    using conjI [OF h1 h2]
    by (rule reply_address
          [THEN conjunct2, THEN conjunct2, THEN conjunct2, THEN conjunct2, THEN conjunct1,
           rule_format])
  have i1: "ImapService_getMessage 0 reply_plain (rm_id thanks_plain) = Inr (Some message_plain)"
    by code_simp
  have i2: "em_from message_plain = ''Jane Doe''"
    by code_simp
  have i3: "\<not> includesChar (replyTo (em_from message_plain)) (CHR ''@'')"
    unfolding i2 h3 by (simp add: includesChar_def)
  have i4: "EmailOperations_replyToMessage 0 reply_plain locale_date account transporter_ok
       thanks_plain
       = (Inr \<lparr> sr_messageId = [], sr_success = False,
                sr_message = ''Could not determine reply address from original message'' \<rparr>,
          transporter_ok)"
    using conjI [OF i1 i3]
    by (rule reply_address
          [THEN conjunct2, THEN conjunct2, THEN conjunct2, THEN conjunct2, THEN conjunct2,
           THEN conjunct1, rule_format])
  have j1: "ImapService_getMessage 0 reply19 (rm_id thanks) = Inr (Some message19)"
    by code_simp
  have j2: "em_from message19 = ''Jane Doe <jane@example.com>''"
    by code_simp
  have j3: "includesChar (replyTo (em_from message19)) (CHR ''@'')"
    unfolding j2 a2 by (simp add: includesChar_def)
  from reply_address
         [of _ 0 reply19 thanks message19 locale_date account transporter_ok,
          THEN conjunct2, THEN conjunct2, THEN conjunct2, THEN conjunct2, THEN conjunct2,
          THEN conjunct2, rule_format, OF conjI [OF j1 j3]]
  obtain m where S: "snd (EmailOperations_replyToMessage 0 reply19 locale_date account
                            transporter_ok thanks)
               = transporter_ok \<lparr> tp_received := tp_received transporter_ok @ [m] \<rparr>"
    and T: "mo_to m = replyTo (em_from message19)"
    and A: "fst (EmailOperations_replyToMessage 0 reply19 locale_date account transporter_ok thanks)
                  = Inr (case tp_answer transporter_ok m of
                           Inl e \<Rightarrow> failure (''Failed to send reply: '' @ errmsg e)
                         | Inr info_messageId \<Rightarrow>
                             \<lparr> sr_messageId = info_messageId, sr_success = True,
                               sr_message = ''Reply sent successfully'' \<rparr>)"
    by blast
  have j4: "map mo_to (tp_received (snd (EmailOperations_replyToMessage 0 reply19 locale_date
                                          account transporter_ok thanks)))
       = [''jane@example.com'']"
    unfolding S using T j2 a2 by (simp add: transporter_ok_def)
  have j5: "fst (EmailOperations_replyToMessage 0 reply19 locale_date account transporter_ok thanks)
       = Inr \<lparr> sr_messageId = ''<reply@smtp>'', sr_success = True,
               sr_message = ''Reply sent successfully'' \<rparr>"
    unfolding A by (simp add: transporter_ok_def accepted_def)
  show ?thesis
    by (intro conjI a1 a2 b1 b2 c1 d1 d2 d3 e1 e2 e3 f1 f2 f3 g1 h1 h2 h3 i1 i2 i4 j1 j2 j4 j5)
qed


section \<open>Failures of a reply\<close>

text \<open>
  Claim C8, as stated, lets an error of the connection during the first fetch reach
  the caller as a thrown error. The \<open>catch\<close> of \<open>replyToMessage\<close> turns it into a
  failure result, and the transporter is handed nothing.
\<close>

theorem replyToMessage_connection_error_counterexample:
  "EmailOperations_replyToMessage 0 (ConnectionError ''timeout'') locale_date account
     transporter_ok thanks
   = (Inr \<lparr> sr_messageId = [], sr_success = False,
            sr_message = ''Failed to send reply: IMAP connection error: timeout'' \<rparr>,
      transporter_ok)"
  by (simp add: EmailOperations_replyToMessage_def replyToMessage_try_def
        ImapService_getMessageHeaders_def ImapService_getMessage_def failure_def)

text \<open>
  Claim C8, amended. \<open>replyToMessage\<close> never throws. A target that is not there, a
  reply address that cannot be determined, a transporter that refuses the mail, and
  every rejection of the first fetch (connection, inbox, fetch, decoder) each give a
  failure result: no success, an empty message identifier and the reason. The
  transporter is handed a mail only when the target is there and a reply address is
  found; then it is handed one mail, and a refusal of that mail is the failure
  returned.
\<close>

theorem replyToMessage_never_raises:
  "(\<exists>r. fst (EmailOperations_replyToMessage now reply toLocaleString user t params) = Inr r)
   \<and> (ImapService_getMessage now reply (rm_id params) = Inr None \<longrightarrow>
        EmailOperations_replyToMessage now reply toLocaleString user t params
          = (Inr \<lparr> sr_messageId = [], sr_success = False,
                   sr_message = ''Original message not found'' \<rparr>, t))
   \<and> (ImapService_getMessage now reply (rm_id params) = Inr (Some orig)
        \<and> \<not> includesChar (replyTo (em_from orig)) (CHR ''@'') \<longrightarrow>
        EmailOperations_replyToMessage now reply toLocaleString user t params
          = (Inr \<lparr> sr_messageId = [], sr_success = False,
                   sr_message = ''Could not determine reply address from original message'' \<rparr>,
             t))
   \<and> (ImapService_getMessage now reply (rm_id params) = Inr (Some orig)
        \<and> includesChar (replyTo (em_from orig)) (CHR ''@'')
        \<and> (\<forall>options. tp_answer t options = Inl e) \<longrightarrow>
        fst (EmailOperations_replyToMessage now reply toLocaleString user t params)
          = Inr \<lparr> sr_messageId = [], sr_success = False,
                  sr_message = ''Failed to send reply: '' @ errmsg e \<rparr>)
   \<and> (ImapService_getMessage now reply (rm_id params) = Inl e \<longrightarrow>
        EmailOperations_replyToMessage now reply toLocaleString user t params
          = (Inr \<lparr> sr_messageId = [], sr_success = False,
                   sr_message = ''Failed to send reply: '' @ errmsg e \<rparr>, t))
   \<and> (ImapService_getMessage now reply (rm_id params) = Inr (Some orig)
        \<and> includesChar (replyTo (em_from orig)) (CHR ''@'') \<longrightarrow>
        (\<exists>m. snd (EmailOperations_replyToMessage now reply toLocaleString user t params)
               = t \<lparr> tp_received := tp_received t @ [m] \<rparr>
           \<and> mo_to m = replyTo (em_from orig)
           \<and> (\<forall>e'. tp_answer t m = Inl e' \<longrightarrow>
                fst (EmailOperations_replyToMessage now reply toLocaleString user t params)
                  = Inr \<lparr> sr_messageId = [], sr_success = False,
                          sr_message = ''Failed to send reply: '' @ errmsg e' \<rparr>)
           \<and> (\<forall>i. tp_answer t m = Inr i \<longrightarrow>
                fst (EmailOperations_replyToMessage now reply toLocaleString user t params)
                  = Inr \<lparr> sr_messageId = i, sr_success = True,
                          sr_message = ''Reply sent successfully'' \<rparr>)))"
proof (intro conjI impI)
  show "\<exists>r. fst (EmailOperations_replyToMessage now reply toLocaleString user t params) = Inr r"
    by (simp add: EmailOperations_replyToMessage_def split: sum.splits prod.splits)
next
  assume "ImapService_getMessage now reply (rm_id params) = Inr None"
  then show "EmailOperations_replyToMessage now reply toLocaleString user t params
          = (Inr \<lparr> sr_messageId = [], sr_success = False,
                   sr_message = ''Original message not found'' \<rparr>, t)"
    by (simp add: EmailOperations_replyToMessage_def replyToMessage_try_def
          ImapService_getMessageHeaders_def failure_def)
next
  assume "ImapService_getMessage now reply (rm_id params) = Inr (Some orig)
        \<and> \<not> includesChar (replyTo (em_from orig)) (CHR ''@'')"
  then show "EmailOperations_replyToMessage now reply toLocaleString user t params
          = (Inr \<lparr> sr_messageId = [], sr_success = False,
                   sr_message = ''Could not determine reply address from original message'' \<rparr>,
             t)"
    using replyToMessage_no_address [of now reply params orig toLocaleString user t]
    by (simp add: failure_def)
next
  assume a: "ImapService_getMessage now reply (rm_id params) = Inr (Some orig)
        \<and> includesChar (replyTo (em_from orig)) (CHR ''@'')
        \<and> (\<forall>options. tp_answer t options = Inl e)"
  then have "\<exists>m. fst (EmailOperations_replyToMessage now reply toLocaleString user t params)
         = Inr (case tp_answer t m of
                  Inl e \<Rightarrow> failure (''Failed to send reply: '' @ errmsg e)
                | Inr info_messageId \<Rightarrow>
                    \<lparr> sr_messageId = info_messageId, sr_success = True,
                      sr_message = ''Reply sent successfully'' \<rparr>)"
    using replyToMessage_sent [of now reply params orig toLocaleString user t] by blast
  with a show "fst (EmailOperations_replyToMessage now reply toLocaleString user t params)
          = Inr \<lparr> sr_messageId = [], sr_success = False,
                  sr_message = ''Failed to send reply: '' @ errmsg e \<rparr>"
    by (auto simp: failure_def)
next
  assume "ImapService_getMessage now reply (rm_id params) = Inl e"
  then show "EmailOperations_replyToMessage now reply toLocaleString user t params
          = (Inr \<lparr> sr_messageId = [], sr_success = False,
                   sr_message = ''Failed to send reply: '' @ errmsg e \<rparr>, t)"
    by (simp add: EmailOperations_replyToMessage_def replyToMessage_try_def
          ImapService_getMessageHeaders_def failure_def)
next
  assume a: "ImapService_getMessage now reply (rm_id params) = Inr (Some orig)
        \<and> includesChar (replyTo (em_from orig)) (CHR ''@'')"
  then obtain m where S: "snd (EmailOperations_replyToMessage now reply toLocaleString user t params)
           = t \<lparr> tp_received := tp_received t @ [m] \<rparr>"
    and A: "fst (EmailOperations_replyToMessage now reply toLocaleString user t params)
         = Inr (case tp_answer t m of
                  Inl e \<Rightarrow> failure (''Failed to send reply: '' @ errmsg e)
                | Inr info_messageId \<Rightarrow>
                    \<lparr> sr_messageId = info_messageId, sr_success = True,
                      sr_message = ''Reply sent successfully'' \<rparr>)"
    and T: "mo_to m = replyTo (em_from orig)"
    using replyToMessage_sent [of now reply params orig toLocaleString user t] by blast
  show "\<exists>m. snd (EmailOperations_replyToMessage now reply toLocaleString user t params)
               = t \<lparr> tp_received := tp_received t @ [m] \<rparr>
           \<and> mo_to m = replyTo (em_from orig)
           \<and> (\<forall>e'. tp_answer t m = Inl e' \<longrightarrow>
                fst (EmailOperations_replyToMessage now reply toLocaleString user t params)
                  = Inr \<lparr> sr_messageId = [], sr_success = False,
                          sr_message = ''Failed to send reply: '' @ errmsg e' \<rparr>)
           \<and> (\<forall>i. tp_answer t m = Inr i \<longrightarrow>
                fst (EmailOperations_replyToMessage now reply toLocaleString user t params)
                  = Inr \<lparr> sr_messageId = i, sr_success = True,
                          sr_message = ''Reply sent successfully'' \<rparr>)"
    using S A T by (intro exI [of _ m] conjI allI impI) (simp_all add: failure_def)
qed

theorem replyToMessage_never_raises_witness:
  "ImapService_getMessage 0 FetchEmpty (rm_id thanks) = Inr None
   \<and> EmailOperations_replyToMessage 0 FetchEmpty locale_date account transporter_ok thanks
       = (Inr \<lparr> sr_messageId = [], sr_success = False,
                sr_message = ''Original message not found'' \<rparr>, transporter_ok)
   \<and> ImapService_getMessage 0 reply_plain (rm_id thanks_plain) = Inr (Some message_plain)
   \<and> replyTo (em_from message_plain) = ''Jane Doe''
   \<and> EmailOperations_replyToMessage 0 reply_plain locale_date account transporter_ok thanks_plain
       = (Inr \<lparr> sr_messageId = [], sr_success = False,
                sr_message = ''Could not determine reply address from original message'' \<rparr>,
          transporter_ok)
   \<and> ImapService_getMessage 0 reply19 (rm_id thanks) = Inr (Some message19)
   \<and> replyTo (em_from message19) = ''jane@example.com''
   \<and> fst (EmailOperations_replyToMessage 0 reply19 locale_date account transporter_down thanks)
       = Inr \<lparr> sr_messageId = [], sr_success = False,
               sr_message = ''Failed to send reply: connect ECONNREFUSED'' \<rparr>
   \<and> map mo_to (tp_received (snd (EmailOperations_replyToMessage 0 reply19 locale_date account
                                     transporter_down thanks)))
       = [''jane@example.com'']
   \<and> ImapService_getMessage 0 (OpenBoxError ''Mailbox locked'') (rm_id thanks)
       = Inl (Error ''Failed to open inbox: Mailbox locked'')
   \<and> EmailOperations_replyToMessage 0 (OpenBoxError ''Mailbox locked'') locale_date account
        transporter_ok thanks
       = (Inr \<lparr> sr_messageId = [], sr_success = False,
                sr_message = ''Failed to send reply: Failed to open inbox: Mailbox locked'' \<rparr>,
          transporter_ok)"
proof -
  have a1: "ImapService_getMessage 0 FetchEmpty (rm_id thanks) = Inr None"
    by code_simp
  have a2: "EmailOperations_replyToMessage 0 FetchEmpty locale_date account transporter_ok thanks
       = (Inr \<lparr> sr_messageId = [], sr_success = False,
                sr_message = ''Original message not found'' \<rparr>, transporter_ok)"
    using a1
    by (rule replyToMessage_never_raises [THEN conjunct2, THEN conjunct1, rule_format])
  have b1: "ImapService_getMessage 0 reply_plain (rm_id thanks_plain) = Inr (Some message_plain)"
    by code_simp
  have b2: "replyTo (em_from message_plain) = ''Jane Doe''"
    by code_simp
  have b3: "\<not> includesChar (replyTo (em_from message_plain)) (CHR ''@'')"
    unfolding b2 by (simp add: includesChar_def)
  have b4: "EmailOperations_replyToMessage 0 reply_plain locale_date account transporter_ok
       thanks_plain
       = (Inr \<lparr> sr_messageId = [], sr_success = False,
                sr_message = ''Could not determine reply address from original message'' \<rparr>,
          transporter_ok)"
    using conjI [OF b1 b3]
    by (rule replyToMessage_never_raises
          [THEN conjunct2, THEN conjunct2, THEN conjunct1, rule_format])
  have c1: "ImapService_getMessage 0 reply19 (rm_id thanks) = Inr (Some message19)"
    by code_simp
  have c2: "replyTo (em_from message19) = ''jane@example.com''"
    by code_simp
  have c3: "includesChar (replyTo (em_from message19)) (CHR ''@'')"
    unfolding c2 by (simp add: includesChar_def)
  have c4: "\<forall>options. tp_answer transporter_down options = Inl (Error ''connect ECONNREFUSED'')"
    by (simp add: transporter_down_def refused_def)
  have c5: "fst (EmailOperations_replyToMessage 0 reply19 locale_date account transporter_down thanks)
       = Inr \<lparr> sr_messageId = [], sr_success = False,
               sr_message = ''Failed to send reply: '' @ errmsg (Error ''connect ECONNREFUSED'') \<rparr>"
    using conjI [OF c1 conjI [OF c3 c4]]
    by (rule replyToMessage_never_raises
          [THEN conjunct2, THEN conjunct2, THEN conjunct2, THEN conjunct1, rule_format])
  from replyToMessage_never_raises
         [of 0 reply19 locale_date account transporter_down thanks message19,
          THEN conjunct2, THEN conjunct2, THEN conjunct2, THEN conjunct2, THEN conjunct2,
          rule_format, OF conjI [OF c1 c3]]
  obtain m where S: "snd (EmailOperations_replyToMessage 0 reply19 locale_date account
                            transporter_down thanks)
               = transporter_down \<lparr> tp_received := tp_received transporter_down @ [m] \<rparr>"
    and T: "mo_to m = replyTo (em_from message19)"
    by blast
  have c6: "map mo_to (tp_received (snd (EmailOperations_replyToMessage 0 reply19 locale_date
                                          account transporter_down thanks)))
       = [''jane@example.com'']"
    unfolding S using T c2 by (simp add: transporter_down_def)
  have d1: "ImapService_getMessage 0 (OpenBoxError ''Mailbox locked'') (rm_id thanks)
       = Inl (Error ''Failed to open inbox: Mailbox locked'')"
    by code_simp
  have d2: "EmailOperations_replyToMessage 0 (OpenBoxError ''Mailbox locked'') locale_date account
        transporter_ok thanks
       = (Inr \<lparr> sr_messageId = [], sr_success = False,
                sr_message = ''Failed to send reply: ''
                  @ errmsg (Error ''Failed to open inbox: Mailbox locked'') \<rparr>, transporter_ok)"
    using d1
    by (rule replyToMessage_never_raises
          [THEN conjunct2, THEN conjunct2, THEN conjunct2, THEN conjunct2, THEN conjunct1,
           rule_format])
  show ?thesis
    using a1 a2 b1 b2 b4 c1 c2 c5 c6 d1 d2 by simp
qed


section \<open>The attachment flag\<close>










section \<open>Fetching an attachment\<close>

lemma size_limit_error_distinct:
  "Error (CHR ''I'' # m) \<noteq> size_limit_error sz l"
  "Error (CHR ''F'' # m) \<noteq> size_limit_error sz l"
  "size_limit_error sz l \<noteq> Error (CHR ''I'' # m)"
  "size_limit_error sz l \<noteq> Error (CHR ''F'' # m)"
  by (simp_all add: size_limit_error_def)

text \<open>
  Claim C10. \<open>getAttachment\<close> resolves to null, without an error, when the target
  message does not exist, when the message has no attachments, and when the index is
  at least the number of attachments. It rejects with the size-limit error exactly
  when the message was fetched, the index denotes one of its attachments and the
  declared size of that attachment exceeds \<open>maxSizeBytes\<close>.
\<close>

theorem getAttachment_outcomes:
  "(reply = FetchEmpty \<longrightarrow>
      ImapService_getAttachment reply uid attachmentIndex maxSizeBytes = Inr None
      \<and> EmailOperations_getAttachment reply uid attachmentIndex maxSizeBytes = Inr None)
   \<and> (reply = FetchMessage attrs (Inr parsed) \<and> pm_attachments parsed = [] \<longrightarrow>
      ImapService_getAttachment reply uid attachmentIndex maxSizeBytes = Inr None
      \<and> EmailOperations_getAttachment reply uid attachmentIndex maxSizeBytes = Inr None)
   \<and> (reply = FetchMessage attrs (Inr parsed)
        \<and> attachmentIndex \<ge> int (length (pm_attachments parsed)) \<longrightarrow>
      ImapService_getAttachment reply uid attachmentIndex maxSizeBytes = Inr None
      \<and> EmailOperations_getAttachment reply uid attachmentIndex maxSizeBytes = Inr None)
   \<and> ((\<exists>sz limit. ImapService_getAttachment reply uid attachmentIndex maxSizeBytes
                     = Inl (size_limit_error sz limit))
       \<longleftrightarrow> (\<exists>a p. reply = FetchMessage a (Inr p)
                  \<and> 0 \<le> attachmentIndex \<and> attachmentIndex < int (length (pm_attachments p))
                  \<and> int (att_size (pm_attachments p ! nat attachmentIndex)) > maxSizeBytes))
   \<and> (reply = FetchMessage attrs (Inr parsed)
        \<and> 0 \<le> attachmentIndex \<and> attachmentIndex < int (length (pm_attachments parsed))
        \<and> int (att_size (pm_attachments parsed ! nat attachmentIndex)) > maxSizeBytes \<longrightarrow>
      ImapService_getAttachment reply uid attachmentIndex maxSizeBytes
        = Inl (size_limit_error (att_size (pm_attachments parsed ! nat attachmentIndex))
                 maxSizeBytes))"
proof (intro conjI impI)
  assume "reply = FetchEmpty"
  then show "ImapService_getAttachment reply uid attachmentIndex maxSizeBytes = Inr None"
    by (simp add: ImapService_getAttachment_def)
  then show "EmailOperations_getAttachment reply uid attachmentIndex maxSizeBytes = Inr None"
    by (simp add: EmailOperations_getAttachment_def)
next
  assume "reply = FetchMessage attrs (Inr parsed) \<and> pm_attachments parsed = []"
  then show "ImapService_getAttachment reply uid attachmentIndex maxSizeBytes = Inr None"
    by (simp add: ImapService_getAttachment_def)
  then show "EmailOperations_getAttachment reply uid attachmentIndex maxSizeBytes = Inr None"
    by (simp add: EmailOperations_getAttachment_def)
next
  assume "reply = FetchMessage attrs (Inr parsed)
        \<and> attachmentIndex \<ge> int (length (pm_attachments parsed))"
  then show "ImapService_getAttachment reply uid attachmentIndex maxSizeBytes = Inr None"
    by (simp add: ImapService_getAttachment_def)
  then show "EmailOperations_getAttachment reply uid attachmentIndex maxSizeBytes = Inr None"
    by (simp add: EmailOperations_getAttachment_def)
next
  show "(\<exists>sz limit. ImapService_getAttachment reply uid attachmentIndex maxSizeBytes
                     = Inl (size_limit_error sz limit))
       \<longleftrightarrow> (\<exists>a p. reply = FetchMessage a (Inr p)
                  \<and> 0 \<le> attachmentIndex \<and> attachmentIndex < int (length (pm_attachments p))
                  \<and> int (att_size (pm_attachments p ! nat attachmentIndex)) > maxSizeBytes)"
    by (auto simp: ImapService_getAttachment_def Let_def size_limit_error_distinct
             split: fetch_reply.splits sum.splits if_splits)
next
  assume "reply = FetchMessage attrs (Inr parsed)
        \<and> 0 \<le> attachmentIndex \<and> attachmentIndex < int (length (pm_attachments parsed))
        \<and> int (att_size (pm_attachments parsed ! nat attachmentIndex)) > maxSizeBytes"
  then show "ImapService_getAttachment reply uid attachmentIndex maxSizeBytes
        = Inl (size_limit_error (att_size (pm_attachments parsed ! nat attachmentIndex))
                 maxSizeBytes)"
    by (auto simp: ImapService_getAttachment_def Let_def)
qed


theorem getAttachment_outcomes_witness:
  "ImapService_getAttachment FetchEmpty ''404'' 0 1000 = Inr None
   \<and> pm_attachments parsed_plain = []
   \<and> ImapService_getAttachment reply_plain ''7'' 0 1000 = Inr None
   \<and> length (pm_attachments parsed_report) = 1
   \<and> ImapService_getAttachment reply_report ''21'' 1 1000 = Inr None
   \<and> EmailOperations_getAttachment reply_report ''21'' 1 1000 = Inr None
   \<and> att_size (pm_attachments parsed_report ! nat 0) = 2048
   \<and> ImapService_getAttachment reply_report ''21'' 0 1000 = Inl (size_limit_error 2048 1000)
   \<and> size_limit_error 2048 1000
       = Error ''Attachment size (2048 bytes) exceeds limit (1000 bytes)''"
proof -
  note T = getAttachment_outcomes
  have a: "ImapService_getAttachment FetchEmpty ''404'' 0 1000 = Inr None"
    using refl [of FetchEmpty]
    by (rule T [THEN conjunct1, rule_format, THEN conjunct1])
  have b1: "pm_attachments parsed_plain = []"
    by code_simp
  have "reply_plain = FetchMessage (Some (attrs_of 7)) (Inr parsed_plain)
        \<and> pm_attachments parsed_plain = []"
    using b1 by (simp add: reply_plain_def)
  then have b2: "ImapService_getAttachment reply_plain ''7'' 0 1000 = Inr None"
    by (rule T [THEN conjunct2, THEN conjunct1, rule_format, THEN conjunct1])
  have c1: "length (pm_attachments parsed_report) = 1"
    by code_simp
  have c2: "reply_report = FetchMessage (Some (attrs_of 21)) (Inr parsed_report)
        \<and> 1 \<ge> int (length (pm_attachments parsed_report))"
    using c1 by (simp add: reply_report_def)
  note C = T [THEN conjunct2, THEN conjunct2, THEN conjunct1, rule_format, OF c2]
  have c3: "ImapService_getAttachment reply_report ''21'' 1 1000 = Inr None"
    by (rule C [THEN conjunct1])
  have c4: "EmailOperations_getAttachment reply_report ''21'' 1 1000 = Inr None"
    by (rule C [THEN conjunct2])
  have d1: "att_size (pm_attachments parsed_report ! nat 0) = 2048"
    by code_simp
  have d2: "reply_report = FetchMessage (Some (attrs_of 21)) (Inr parsed_report)
        \<and> 0 \<le> (0::int) \<and> 0 < int (length (pm_attachments parsed_report))
        \<and> int (att_size (pm_attachments parsed_report ! nat 0)) > 1000"
    unfolding d1 c1 by (simp add: reply_report_def)
  have d3: "ImapService_getAttachment reply_report ''21'' 0 1000
      = Inl (size_limit_error (att_size (pm_attachments parsed_report ! nat 0)) 1000)"
    using d2
    by (rule T [THEN conjunct2, THEN conjunct2, THEN conjunct2, THEN conjunct2, rule_format])
  have d4: "ImapService_getAttachment reply_report ''21'' 0 1000 = Inl (size_limit_error 2048 1000)"
    using d3 unfolding d1 .
  have e: "size_limit_error 2048 1000
       = Error ''Attachment size (2048 bytes) exceeds limit (1000 bytes)''"
    by code_simp
  show ?thesis
    by (intro conjI a b1 b2 c1 c3 c4 d1 d4 e)
qed

end
